theory Spec2Isabelle
  imports Complex_Main
begin

section \<open>Python values used by atm.py\<close>

subsection \<open>float\<close>

text \<open>
  A Python float is an IEEE 754 binary64 value. \<open>Fin m e\<close> is the finite value
  \<open>m * 2 ^ e\<close>; results are kept in the form with \<open>m\<close> odd (zero is \<open>Fin 0 0\<close>), so
  that equal finite values are equal terms. \<open>NegZero\<close> is \<open>-0.0\<close>, \<open>PInf\<close> and \<open>NInf\<close>
  are \<open>inf\<close> and \<open>-inf\<close>, \<open>NaN\<close> is \<open>nan\<close>.
\<close>

datatype pyfloat = Fin int int | NegZero | PInf | NInf | NaN

fun bitlen :: "nat \<Rightarrow> nat" where
  "bitlen n = (if n = 0 then 0 else Suc (bitlen (n div 2)))"

declare bitlen.simps [simp del]

function canon :: "int \<Rightarrow> int \<Rightarrow> int \<times> int" where
  "canon m e = (if m = 0 then (0, 0)
                else if even m then canon (m div 2) (e + 1)
                else (m, e))"
  by pat_completeness auto
termination
  by (relation "measure (\<lambda>(m, e). nat \<bar>m\<bar>)") auto

declare canon.simps [simp del]

text \<open>\<open>ilog2 n d\<close> is the integer part of the binary logarithm of \<open>n / d\<close> (\<open>n, d > 0\<close>).\<close>

definition ilog2 :: "nat \<Rightarrow> nat \<Rightarrow> int" where
  "ilog2 n d =
     (let k = int (bitlen n) - int (bitlen d)
      in if (if 0 \<le> k then d * 2 ^ nat k \<le> n else d \<le> n * 2 ^ nat (- k))
         then k else k - 1)"

text \<open>\<open>n / d\<close> rounded to the nearest integer, a tie going to the even one.\<close>

definition rne_div :: "nat \<Rightarrow> nat \<Rightarrow> nat" where
  "rne_div n d =
     (let f = n div d; r = n mod d
      in if 2 * r < d then f
         else if d < 2 * r then f + 1
         else if even f then f else f + 1)"

text \<open>
  \<open>round64 neg n d\<close> is the binary64 value nearest to \<open>n / d\<close> (negated when \<open>neg\<close>):
  53 significant bits, least exponent \<open>-1074\<close>, overflow to infinity from \<open>2 ^ 1024\<close>.
\<close>

definition round64 :: "bool \<Rightarrow> nat \<Rightarrow> nat \<Rightarrow> pyfloat" where
  "round64 neg n d =
     (if n = 0 then (if neg then NegZero else Fin 0 0)
      else
        let e = max (- 1074) (ilog2 n d - 52);
            m = (if 0 \<le> e then rne_div n (d * 2 ^ nat e)
                 else rne_div (n * 2 ^ nat (- e)) d)
        in if m = 0 then (if neg then NegZero else Fin 0 0)
           else if (if 0 \<le> e then 2 ^ 1024 \<le> m * 2 ^ nat e
                    else 2 ^ 1024 * 2 ^ nat (- e) \<le> m)
                then (if neg then NInf else PInf)
           else case canon (int m) e of
                  (m', e') \<Rightarrow> Fin (if neg then - m' else m') e')"

fun parts :: "pyfloat \<Rightarrow> int \<times> int" where
  "parts (Fin m e) = (m, e)"
| "parts _ = (0, 0)"

definition fin_add :: "int \<times> int \<Rightarrow> int \<times> int \<Rightarrow> pyfloat" where
  "fin_add x y =
     (case (x, y) of
        ((m1, e1), (m2, e2)) \<Rightarrow>
          let E = min e1 e2;
              M = m1 * 2 ^ nat (e1 - E) + m2 * 2 ^ nat (e2 - E)
          in if M = 0 then Fin 0 0
             else if 0 \<le> E then round64 (M < 0) (nat \<bar>M\<bar> * 2 ^ nat E) 1
             else round64 (M < 0) (nat \<bar>M\<bar>) (2 ^ nat (- E)))"

text \<open>\<open>x + y\<close> on floats.\<close>

fun fadd :: "pyfloat \<Rightarrow> pyfloat \<Rightarrow> pyfloat" where
  "fadd NaN y = NaN"
| "fadd x NaN = NaN"
| "fadd PInf NInf = NaN"
| "fadd NInf PInf = NaN"
| "fadd PInf y = PInf"
| "fadd x PInf = PInf"
| "fadd NInf y = NInf"
| "fadd x NInf = NInf"
| "fadd NegZero NegZero = NegZero"
| "fadd x y = fin_add (parts x) (parts y)"

fun fneg :: "pyfloat \<Rightarrow> pyfloat" where
  "fneg (Fin m e) = (if m = 0 then NegZero else Fin (- m) e)"
| "fneg NegZero = Fin 0 0"
| "fneg PInf = NInf"
| "fneg NInf = PInf"
| "fneg NaN = NaN"

text \<open>\<open>x - y\<close> on floats.\<close>

definition fsub :: "pyfloat \<Rightarrow> pyfloat \<Rightarrow> pyfloat" where
  "fsub x y = fadd x (fneg y)"

text \<open>\<open>x < y\<close> on floats: false whenever an operand is \<open>nan\<close>.\<close>

fun flt :: "pyfloat \<Rightarrow> pyfloat \<Rightarrow> bool" where
  "flt NaN y = False"
| "flt x NaN = False"
| "flt PInf y = False"
| "flt x NInf = False"
| "flt NInf y = True"
| "flt x PInf = True"
| "flt x y =
     (case (parts x, parts y) of
        ((m1, e1), (m2, e2)) \<Rightarrow>
          let E = min e1 e2
          in m1 * 2 ^ nat (e1 - E) < m2 * 2 ^ nat (e2 - E))"

text \<open>\<open>x <= 0\<close>, the float \<open>x\<close> against the int \<open>0\<close>.\<close>

fun fle0 :: "pyfloat \<Rightarrow> bool" where
  "fle0 (Fin m e) = (m \<le> 0)"
| "fle0 NegZero = True"
| "fle0 PInf = False"
| "fle0 NInf = True"
| "fle0 NaN = False"

text \<open>The rational value of a finite float (0 for the others, which have none).\<close>

fun val :: "pyfloat \<Rightarrow> rat" where
  "val (Fin m e) = of_int m * 2 powi e"
| "val _ = 0"

fun is_fin :: "pyfloat \<Rightarrow> bool" where
  "is_fin (Fin m e) = True"
| "is_fin NegZero = True"
| "is_fin _ = False"

subsection \<open>str\<close>

text \<open>
  A string is a list of code points below 256. \<open>strip\<close> is \<open>str.strip()\<close>, \<open>str_isdigit\<close>
  is \<open>str.isdigit()\<close>, \<open>py_str\<close> is \<open>str\<close> on an int.
\<close>

definition py_isspace :: "char \<Rightarrow> bool" where
  "py_isspace c = ((of_char c :: nat) \<in> {9, 10, 11, 12, 13, 28, 29, 30, 31, 32, 133, 160})"

definition strip :: "string \<Rightarrow> string" where
  "strip s = rev (dropWhile py_isspace (rev (dropWhile py_isspace s)))"

definition is_dec :: "char \<Rightarrow> bool" where
  "is_dec c = (48 \<le> (of_char c :: nat) \<and> (of_char c :: nat) \<le> 57)"

definition py_isdigit :: "char \<Rightarrow> bool" where
  "py_isdigit c = (is_dec c \<or> (of_char c :: nat) \<in> {178, 179, 185})"

definition str_isdigit :: "string \<Rightarrow> bool" where
  "str_isdigit s = (s \<noteq> [] \<and> list_all py_isdigit s)"

definition lower :: "char \<Rightarrow> char" where
  "lower c =
     (case map_of (zip ''ABCDEFGHIJKLMNOPQRSTUVWXYZ'' ''abcdefghijklmnopqrstuvwxyz'') c of
        None \<Rightarrow> c
      | Some l \<Rightarrow> l)"

definition digit_char :: "nat \<Rightarrow> char" where
  "digit_char n = ''0123456789'' ! n"

fun nat_str :: "nat \<Rightarrow> string" where
  "nat_str n = (if n < 10 then [digit_char n]
                else nat_str (n div 10) @ [digit_char (n mod 10)])"

declare nat_str.simps [simp del]

definition py_str :: "int \<Rightarrow> string" where
  "py_str i = (if i < 0 then CHR ''-'' # nat_str (nat (- i)) else nat_str (nat i))"

subsection \<open>float(str)\<close>

text \<open>
  \<open>py_float s\<close> is \<open>float(s)\<close> on a stripped string, \<open>None\<close> where it raises ValueError.
  An underscore may stand between two digits; after an optional sign come \<open>inf\<close>,
  \<open>infinity\<close> or \<open>nan\<close> in any case, or digits with an optional point and an optional
  exponent; the value is rounded to the nearest float.
\<close>

fun drop_underscores :: "char \<Rightarrow> string \<Rightarrow> string option" where
  "drop_underscores prev [] = (if prev = CHR ''_'' then None else Some [])"
| "drop_underscores prev (c # cs) =
     (if c = CHR ''_''
      then (if is_dec prev then drop_underscores c cs else None)
      else if prev = CHR ''_'' \<and> \<not> is_dec c then None
      else map_option ((#) c) (drop_underscores c cs))"

definition dec_val :: "string \<Rightarrow> nat" where
  "dec_val ds = foldl (\<lambda>a c. 10 * a + ((of_char c :: nat) - 48)) 0 ds"

definition split_sign :: "string \<Rightarrow> bool \<times> string" where
  "split_sign s =
     (case s of
        [] \<Rightarrow> (False, [])
      | c # cs \<Rightarrow> if c = CHR ''-'' then (True, cs)
                  else if c = CHR ''+'' then (False, cs)
                  else (False, s))"

definition parse_exponent :: "string \<Rightarrow> int option" where
  "parse_exponent s =
     (case s of
        [] \<Rightarrow> Some 0
      | c # cs \<Rightarrow>
          if c = CHR ''e'' \<or> c = CHR ''E''
          then (case split_sign cs of
                  (neg, ds) \<Rightarrow>
                    if ds \<noteq> [] \<and> list_all is_dec ds
                    then Some (if neg then - int (dec_val ds) else int (dec_val ds))
                    else None)
          else None)"

definition parse_decimal :: "bool \<Rightarrow> string \<Rightarrow> pyfloat option" where
  "parse_decimal neg s =
     (let ip = takeWhile is_dec s;
          r1 = dropWhile is_dec s;
          (fp, r2) = (case r1 of
                        [] \<Rightarrow> ([], r1)
                      | c # cs \<Rightarrow> if c = CHR ''.''
                                  then (takeWhile is_dec cs, dropWhile is_dec cs)
                                  else ([], r1))
      in if ip @ fp = [] then None
         else case parse_exponent r2 of
                None \<Rightarrow> None
              | Some ex \<Rightarrow>
                  let x = ex - int (length fp); D = dec_val (ip @ fp)
                  in Some (if 0 \<le> x then round64 neg (D * 10 ^ nat x) 1
                           else round64 neg D (10 ^ nat (- x))))"

definition py_float :: "string \<Rightarrow> pyfloat option" where
  "py_float s =
     (case drop_underscores (CHR 0x00) s of
        None \<Rightarrow> None
      | Some t \<Rightarrow>
          (case split_sign t of
             (neg, u) \<Rightarrow>
               let l = map lower u
               in if l = ''inf'' \<or> l = ''infinity'' then Some (if neg then NInf else PInf)
                  else if l = ''nan'' then Some NaN
                  else parse_decimal neg u))"

section \<open>The data of atm.py\<close>

record entry =
  etime :: string
  etype :: string
  eamount :: pyfloat
  enote :: string

record account =
  name :: string
  pin :: string
  balance :: pyfloat
  history :: "entry list"

text \<open>The dict \<open>data\<close>: \<open>{"next_acc": ..., "accounts": {...}}\<close>.\<close>

record store =
  next_acc :: int
  accounts :: "string \<rightharpoonup> account"

text \<open>The dict held by the program and the content of accounts.json (\<open>None\<close>: no file).\<close>

record world =
  data :: store
  datafile :: "store option"

text \<open>What a call prints or raises.\<close>

datatype outcome =
    Name_cannot_be_empty
  | Account_created string
  | Account_not_found
  | Invalid_PIN
  | Logged_in string
  | Current_balance pyfloat
  | Invalid_amount
  | Amount_must_be_positive
  | Insufficient_funds
  | Deposited pyfloat
  | Withdrew pyfloat
  | Cannot_transfer_to_same_account
  | Recipient_not_found
  | Transferred pyfloat string
  | Transaction_history "entry list"
  | KeyError
  | EOFError

section \<open>The functions of atm.py\<close>

definition load_data :: "store option \<Rightarrow> store" where
  "load_data f =
     (case f of
        None \<Rightarrow> \<lparr>next_acc = 1001, accounts = Map.empty\<rparr>
      | Some d \<Rightarrow> d)"

definition save_data :: "world \<Rightarrow> world" where
  "save_data w = w\<lparr>datafile := Some (data w)\<rparr>"

text \<open>
  The PIN prompts of \<open>create_account\<close>: \<open>ins\<close> are the lines typed at the prompts, in
  order; \<open>None\<close> when they end before a PIN is chosen and confirmed.
\<close>

fun pin_loop :: "string list \<Rightarrow> string option" where
  "pin_loop [] = None"
| "pin_loop [p] = None"
| "pin_loop (p # c # ins) =
     (if length (strip p) = 4 \<and> str_isdigit (strip p)
      then (if strip p = strip c then Some (strip p) else pin_loop ins)
      else pin_loop (c # ins))"

text \<open>
  \<open>name_in\<close> is the line typed at "Full name: ", \<open>now\<close> the value of
  \<open>datetime.utcnow().isoformat()\<close>.
\<close>

definition create_account :: "world \<Rightarrow> string \<Rightarrow> string list \<Rightarrow> string \<Rightarrow> outcome \<times> world" where
  "create_account w name_in ins now =
     (let nm = strip name_in
      in if nm = [] then (Name_cannot_be_empty, w)
         else case pin_loop ins of
                None \<Rightarrow> (EOFError, w)
              | Some p \<Rightarrow>
                  let d = data w;
                      acc_num = py_str (next_acc d);
                      d1 = d\<lparr>next_acc := next_acc d + 1\<rparr>;
                      d2 = d1\<lparr>accounts := (accounts d1)(acc_num \<mapsto>
                              \<lparr>name = nm, pin = p, balance = Fin 0 0,
                               history = [\<lparr>etime = now @ ''Z'', etype = ''create'',
                                           eamount = Fin 0 0, enote = ''Account created''\<rparr>]\<rparr>)\<rparr>
                  in (Account_created acc_num, save_data (w\<lparr>data := d2\<rparr>)))"

definition authenticate :: "world \<Rightarrow> string \<Rightarrow> string \<Rightarrow> outcome \<times> world" where
  "authenticate w acc_in pin_in =
     (let acc = strip acc_in; p = strip pin_in
      in case accounts (data w) acc of
           None \<Rightarrow> (Account_not_found, w)
         | Some a \<Rightarrow> if pin a \<noteq> p then (Invalid_PIN, w) else (Logged_in acc, w))"

definition show_balance :: "world \<Rightarrow> string \<Rightarrow> outcome \<times> world" where
  "show_balance w acc =
     (case accounts (data w) acc of
        None \<Rightarrow> (KeyError, w)
      | Some a \<Rightarrow> (Current_balance (balance a), w))"

definition add_history :: "store \<Rightarrow> string \<Rightarrow> string \<Rightarrow> pyfloat \<Rightarrow> string \<Rightarrow> string \<Rightarrow> store option" where
  "add_history d acc typ amt nt now =
     (case accounts d acc of
        None \<Rightarrow> None
      | Some a \<Rightarrow>
          Some (d\<lparr>accounts := (accounts d)(acc \<mapsto>
                  a\<lparr>history := history a @
                       [\<lparr>etime = now @ ''Z'', etype = typ, eamount = amt, enote = nt\<rparr>]\<rparr>)\<rparr>))"

text \<open>\<open>data["accounts"][acc]["balance"] = b\<close>, for an account that is there.\<close>

definition set_balance :: "store \<Rightarrow> string \<Rightarrow> account \<Rightarrow> pyfloat \<Rightarrow> store" where
  "set_balance d acc a b = d\<lparr>accounts := (accounts d)(acc \<mapsto> a\<lparr>balance := b\<rparr>)\<rparr>"

definition deposit :: "world \<Rightarrow> string \<Rightarrow> string \<Rightarrow> string \<Rightarrow> outcome \<times> world" where
  "deposit w acc line now =
     (case py_float (strip line) of
        None \<Rightarrow> (Invalid_amount, w)
      | Some amt \<Rightarrow>
          if fle0 amt then (Amount_must_be_positive, w)
          else case accounts (data w) acc of
                 None \<Rightarrow> (KeyError, w)
               | Some a \<Rightarrow>
                   let d1 = set_balance (data w) acc a (fadd (balance a) amt)
                   in case add_history d1 acc ''deposit'' amt ''Cash deposit'' now of
                        None \<Rightarrow> (KeyError, w\<lparr>data := d1\<rparr>)
                      | Some d2 \<Rightarrow> (Deposited amt, save_data (w\<lparr>data := d2\<rparr>)))"

definition withdraw :: "world \<Rightarrow> string \<Rightarrow> string \<Rightarrow> string \<Rightarrow> outcome \<times> world" where
  "withdraw w acc line now =
     (case py_float (strip line) of
        None \<Rightarrow> (Invalid_amount, w)
      | Some amt \<Rightarrow>
          if fle0 amt then (Amount_must_be_positive, w)
          else case accounts (data w) acc of
                 None \<Rightarrow> (KeyError, w)
               | Some a \<Rightarrow>
                   if flt (balance a) amt then (Insufficient_funds, w)
                   else
                     let d1 = set_balance (data w) acc a (fsub (balance a) amt)
                     in case add_history d1 acc ''withdraw'' amt ''Cash withdrawal'' now of
                          None \<Rightarrow> (KeyError, w\<lparr>data := d1\<rparr>)
                        | Some d2 \<Rightarrow> (Withdrew amt, save_data (w\<lparr>data := d2\<rparr>)))"

text \<open>
  \<open>to_line\<close> and \<open>line\<close> are the lines typed at the two prompts (the second is read only
  when the recipient is accepted); the clock is read once for each history entry.
\<close>

definition transfer :: "world \<Rightarrow> string \<Rightarrow> string \<Rightarrow> string \<Rightarrow> string \<Rightarrow> string \<Rightarrow> outcome \<times> world" where
  "transfer w acc to_line line now1 now2 =
     (let to_acc = strip to_line
      in if to_acc = acc then (Cannot_transfer_to_same_account, w)
         else if accounts (data w) to_acc = None then (Recipient_not_found, w)
         else case py_float (strip line) of
                None \<Rightarrow> (Invalid_amount, w)
              | Some amt \<Rightarrow>
                  if fle0 amt then (Amount_must_be_positive, w)
                  else case accounts (data w) acc of
                         None \<Rightarrow> (KeyError, w)
                       | Some a \<Rightarrow>
                           if flt (balance a) amt then (Insufficient_funds, w)
                           else
                             let d1 = set_balance (data w) acc a (fsub (balance a) amt)
                             in (case accounts d1 to_acc of
                                   None \<Rightarrow> (KeyError, w\<lparr>data := d1\<rparr>)
                                 | Some b \<Rightarrow>
                                     let d2 = set_balance d1 to_acc b (fadd (balance b) amt)
                                     in (case add_history d2 acc ''transfer_out'' amt
                                                (''To '' @ to_acc) now1 of
                                           None \<Rightarrow> (KeyError, w\<lparr>data := d2\<rparr>)
                                         | Some d3 \<Rightarrow>
                                             (case add_history d3 to_acc ''transfer_in'' amt
                                                     (''From '' @ acc) now2 of
                                                None \<Rightarrow> (KeyError, w\<lparr>data := d3\<rparr>)
                                              | Some d4 \<Rightarrow>
                                                  (Transferred amt to_acc,
                                                   save_data (w\<lparr>data := d4\<rparr>))))))"

text \<open>The entries in the order \<open>view_history\<close> prints them.\<close>

definition view_history :: "world \<Rightarrow> string \<Rightarrow> outcome \<times> world" where
  "view_history w acc =
     (case accounts (data w) acc of
        None \<Rightarrow> (KeyError, w)
      | Some a \<Rightarrow> (Transaction_history (rev (history a)), w))"

section \<open>Sequences of operations\<close>

datatype op =
    Create string "string list" string
  | Login string string
  | Balance string
  | Deposit string string string
  | Withdraw string string string
  | Transfer string string string string string
  | History string

fun step :: "world \<Rightarrow> op \<Rightarrow> outcome \<times> world" where
  "step w (Create name_in ins now) = create_account w name_in ins now"
| "step w (Login acc_in pin_in) = authenticate w acc_in pin_in"
| "step w (Balance acc) = show_balance w acc"
| "step w (Deposit acc line now) = deposit w acc line now"
| "step w (Withdraw acc line now) = withdraw w acc line now"
| "step w (Transfer acc to_line line now1 now2) = transfer w acc to_line line now1 now2"
| "step w (History acc) = view_history w acc"

fun run :: "world \<Rightarrow> op list \<Rightarrow> world" where
  "run w [] = w"
| "run w (x # xs) = run (snd (step w x)) xs"

text \<open>The program's state at start when there is no accounts.json.\<close>

definition initial :: world where
  "initial = \<lparr>data = load_data None, datafile = None\<rparr>"

section \<open>Example runs\<close>

text \<open>
  One account is created, 500.00 is deposited, a withdrawal of 600.00 is refused, and a
  second account is created (its first PIN line is too short and is asked again).
\<close>

definition scenario :: world where
  "scenario = run initial
     [Create ''Asha Rao'' [''1234'', ''1234''] ''09:00'',
      Deposit ''1001'' ''500.00'' ''09:01'',
      Withdraw ''1001'' ''600.00'' ''09:02'',
      Create '' Ravi Iyer '' [''12'', ''4321'', ''4321 ''] ''09:03'']"

text \<open>
  Two accounts hold 10000000000000000 and 3. Floats of that size are two apart, so the
  first balance cannot move by 1.
\<close>

definition big_store :: world where
  "big_store = run initial
     [Create ''Asha Rao'' [''1234'', ''1234''] ''09:00'',
      Create ''Ravi Iyer'' [''4321'', ''4321''] ''09:01'',
      Deposit ''1001'' ''10000000000000000'' ''09:02'',
      Deposit ''1002'' ''3'' ''09:03'']"

text \<open>The state after 1 is transferred from the second account of \<open>big_store\<close> to the first.\<close>

definition big_store_after :: world where
  "big_store_after = snd (step big_store (Transfer ''1002'' ''1001'' ''1'' ''09:04'' ''09:05''))"

text \<open>One account, just created.\<close>

definition new_store :: world where
  "new_store = run initial [Create ''Asha Rao'' [''1234'', ''1234''] ''09:00'']"

text \<open>An account is created and \<open>nan\<close> is typed as the amount of a withdrawal.\<close>

definition nan_store :: world where
  "nan_store = run initial
     [Create ''Asha Rao'' [''1234'', ''1234''] ''09:00'',
      Withdraw ''1001'' ''nan'' ''09:01'']"

section \<open>Notions used to state the properties\<close>

text \<open>\<open>x >= 0\<close> on floats: false for \<open>nan\<close>.\<close>

fun fge0 :: "pyfloat \<Rightarrow> bool" where
  "fge0 (Fin m e) = (0 \<le> m)"
| "fge0 NegZero = True"
| "fge0 PInf = True"
| "fge0 NInf = False"
| "fge0 NaN = False"

text \<open>
  The account numbers handed out so far are the decimal numerals of 1001, 1002, ... up to,
  but excluding, \<open>next_acc\<close>.
\<close>

definition keys_sequential :: "world \<Rightarrow> bool" where
  "keys_sequential w =
     (1001 \<le> next_acc (data w) \<and>
      dom (accounts (data w)) = py_str ` {1001 ..< next_acc (data w)})"

text \<open>
  The signed sum of the amounts of a history, as a rational number: the amounts of the
  create, deposit and transfer_in entries, minus the amounts of the withdraw and
  transfer_out entries.
\<close>

definition signed_sum :: "entry list \<Rightarrow> rat" where
  "signed_sum hs =
     sum_list (map (\<lambda>h. val (eamount h))
        (filter (\<lambda>h. etype h \<in> {''create'', ''deposit'', ''transfer_in''}) hs))
     - sum_list (map (\<lambda>h. val (eamount h))
        (filter (\<lambda>h. etype h \<in> {''withdraw'', ''transfer_out''}) hs))"

text \<open>
  \<open>touched w x k\<close>: operation \<open>x\<close>, run in state \<open>w\<close>, is a deposit, withdrawal or transfer
  that goes through and changes the balance of account \<open>k\<close>. \<open>touches w xs k\<close> counts
  such operations along the run of \<open>xs\<close> from \<open>w\<close>.
\<close>

fun touched :: "world \<Rightarrow> op \<Rightarrow> string \<Rightarrow> bool" where
  "touched w (Deposit acc line now) k =
     (case fst (deposit w acc line now) of Deposited amt \<Rightarrow> k = acc | _ \<Rightarrow> False)"
| "touched w (Withdraw acc line now) k =
     (case fst (withdraw w acc line now) of Withdrew amt \<Rightarrow> k = acc | _ \<Rightarrow> False)"
| "touched w (Transfer acc to_line line now1 now2) k =
     (case fst (transfer w acc to_line line now1 now2) of
        Transferred amt t \<Rightarrow> k = acc \<or> k = t
      | _ \<Rightarrow> False)"
| "touched w x k = False"

fun touches :: "world \<Rightarrow> op list \<Rightarrow> string \<Rightarrow> nat" where
  "touches w [] k = 0"
| "touches w (x # xs) k = (if touched w x k then 1 else 0) + touches (snd (step w x)) xs k"

text \<open>The sum of the balances of all accounts, as rational numbers.\<close>

definition total :: "world \<Rightarrow> rat" where
  "total w = (\<Sum>k \<in> dom (accounts (data w)). val (balance (the (accounts (data w) k))))"

text \<open>
  What an operation pays in (a deposit that goes through) or out (a withdrawal that goes
  through), and the net amount along a run.
\<close>

fun delta :: "world \<Rightarrow> op \<Rightarrow> rat" where
  "delta w (Deposit acc line now) =
     (case fst (deposit w acc line now) of Deposited amt \<Rightarrow> val amt | _ \<Rightarrow> 0)"
| "delta w (Withdraw acc line now) =
     (case fst (withdraw w acc line now) of Withdrew amt \<Rightarrow> - val amt | _ \<Rightarrow> 0)"
| "delta w x = 0"

fun net :: "world \<Rightarrow> op list \<Rightarrow> rat" where
  "net w [] = 0"
| "net w (x # xs) = delta w x + net (snd (step w x)) xs"

definition balance_of :: "world \<Rightarrow> string \<Rightarrow> pyfloat" where
  "balance_of w k = (case accounts (data w) k of None \<Rightarrow> Fin 0 0 | Some a \<Rightarrow> balance a)"

definition history_of :: "world \<Rightarrow> string \<Rightarrow> entry list" where
  "history_of w k = (case accounts (data w) k of None \<Rightarrow> [] | Some a \<Rightarrow> history a)"

text \<open>
  A float is whole when it is an integer of magnitude below \<open>2 ^ 53\<close>: a whole number of
  currency units, in the range where every integer is a float.
\<close>

definition whole :: "pyfloat \<Rightarrow> bool" where
  "whole x = (case x of Fin m e \<Rightarrow> 0 \<le> e \<and> \<bar>m\<bar> * 2 ^ nat e < 2 ^ 53 | _ \<Rightarrow> False)"

definition whole_balances :: "world \<Rightarrow> bool" where
  "whole_balances w = (\<forall>k a. accounts (data w) k = Some a \<longrightarrow> whole (balance a))"

text \<open>
  An operation stays in whole amounts when the amount it moves, if it goes through, is
  whole and the balance it is added to stays below \<open>2 ^ 53\<close>. This is a condition on
  the amount typed in and on the balance before the operation, not on what the float
  operation returns.
\<close>

fun whole_step :: "world \<Rightarrow> op \<Rightarrow> bool" where
  "whole_step w (Deposit acc line now) =
     (case fst (deposit w acc line now) of
        Deposited amt \<Rightarrow> whole amt \<and> val (balance_of w acc) + val amt < 2 ^ 53
      | _ \<Rightarrow> True)"
| "whole_step w (Withdraw acc line now) =
     (case fst (withdraw w acc line now) of
        Withdrew amt \<Rightarrow> whole amt
      | _ \<Rightarrow> True)"
| "whole_step w (Transfer acc to_line line now1 now2) =
     (case fst (transfer w acc to_line line now1 now2) of
        Transferred amt t \<Rightarrow> whole amt \<and> val (balance_of w t) + val amt < 2 ^ 53
      | _ \<Rightarrow> True)"
| "whole_step w x = True"

fun whole_run :: "world \<Rightarrow> op list \<Rightarrow> bool" where
  "whole_run w [] = True"
| "whole_run w (x # xs) = (whole_step w x \<and> whole_run (snd (step w x)) xs)"

fun is_create :: "op \<Rightarrow> bool" where
  "is_create (Create name_in ins now) = True"
| "is_create x = False"

section \<open>Float arithmetic on whole amounts\<close>

text \<open>
  On whole amounts whose sum or difference is again below \<open>2 ^ 53\<close> in magnitude, float
  addition and subtraction round nothing away; on finite floats the comparisons are the
  comparisons of the values.
\<close>

lemma bitlen_le: "n < 2 ^ k \<Longrightarrow> bitlen n \<le> k"
proof (induction k arbitrary: n)
  case 0
  then show ?case by (simp add: bitlen.simps)
next
  case (Suc k)
  then have "n div 2 < 2 ^ k" by simp
  from Suc.IH [OF this] show ?case by (subst bitlen.simps) simp
qed

lemma rne_div_1: "rne_div n (Suc 0) = n"
  by (simp add: rne_div_def)

lemma canon_shift: "m \<noteq> 0 \<Longrightarrow> canon (m * 2 ^ k) e = canon m (e + int k)"
proof (induction k arbitrary: e)
  case 0
  then show ?case by simp
next
  case (Suc k)
  have "canon (m * 2 ^ Suc k) e = canon (m * 2 ^ k) (e + 1)"
    using Suc.prems by (subst canon.simps) simp
  with Suc.IH [OF Suc.prems, of "e + 1"] show ?case by (simp add: add.assoc)
qed

lemma canon_spec:
  "m \<noteq> 0 \<Longrightarrow> \<exists>j. canon m e = (m div 2 ^ j, e + int j) \<and> m = (m div 2 ^ j) * 2 ^ j"
proof (induction m e rule: canon.induct)
  case (1 m e)
  show ?case
  proof (cases "even m")
    case True
    with 1 have n: "m div 2 \<noteq> 0" by presburger
    from 1(1) [OF "1.prems" True n] obtain j where
      j: "canon (m div 2) (e + 1) = (m div 2 div 2 ^ j, e + 1 + int j)"
         "m div 2 = (m div 2 div 2 ^ j) * 2 ^ j" by blast
    have d: "m div 2 div 2 ^ j = m div 2 ^ Suc j"
      by (simp add: zdiv_zmult2_eq)
    from True have "m = (m div 2) * 2" by simp
    with j(2) d have "m = (m div 2 ^ Suc j) * 2 ^ Suc j" by simp
    moreover have "canon m e = (m div 2 ^ Suc j, e + int (Suc j))"
      using "1.prems" True j(1) d by (subst canon.simps) simp
    ultimately show ?thesis by blast
  next
    case False
    with "1.prems" have "canon m e = (m div 2 ^ 0, e + int 0) \<and> m = (m div 2 ^ 0) * 2 ^ 0"
      by (subst canon.simps) simp
    then show ?thesis by blast
  qed
qed

lemma round64_small:
  assumes "0 < n" "n < 2 ^ 53"
  shows "\<exists>m e. round64 neg n (Suc 0) = Fin m e \<and> 0 \<le> e \<and>
           m * 2 ^ nat e = (if neg then - int n else int n)"
proof -
  from bitlen_le [OF assms(2)] have b: "bitlen n \<le> 53" .
  have b1: "bitlen (Suc 0) = Suc 0" by (simp add: bitlen.simps)
  define e where "e = max (- 1074) (ilog2 n (Suc 0) - 52)"
  have "ilog2 n (Suc 0) \<le> int (bitlen n) - 1"
    by (simp add: ilog2_def Let_def b1)
  with b have e0: "e \<le> 0" and e1: "- 1074 \<le> e" by (simp_all add: e_def)
  define m where "m = (if 0 \<le> e then rne_div n (Suc 0 * 2 ^ nat e)
                 else rne_div (n * 2 ^ nat (- e)) (Suc 0))"
  have m: "m = n * 2 ^ nat (- e)"
    using e0 by (cases "e = 0") (simp_all add: m_def rne_div_1)
  with assms have m0: "m \<noteq> 0" by simp
  have "(2::nat) ^ 53 \<le> 2 ^ 1024" by (rule power_increasing) simp_all
  with assms(2) have n1024: "n < 2 ^ 1024" by simp
  have ov: "\<not> (if 0 \<le> e then 2 ^ 1024 \<le> m * 2 ^ nat e
                    else 2 ^ 1024 * 2 ^ nat (- e) \<le> m)"
    using e0 n1024 by (cases "e = 0") (simp_all add: m)
  have "canon (int m) e = canon (int n) (e + int (nat (- e)))"
    using assms(1) by (simp add: m canon_shift)
  with e0 have c: "canon (int m) e = canon (int n) 0" by simp
  from assms(1) have "int n \<noteq> 0" by simp
  from canon_spec [OF this, of 0] obtain j where
    j: "canon (int n) 0 = (int n div 2 ^ j, int j)" "int n = (int n div 2 ^ j) * 2 ^ j"
    by auto
  have "round64 neg n (Suc 0) =
          Fin (if neg then - (int n div 2 ^ j) else int n div 2 ^ j) (int j)"
    using assms(1) m0 ov c j(1)
    unfolding round64_def e_def [symmetric] Let_def m_def [symmetric]
    by simp
  with j(2) show ?thesis by auto
qed

lemma fin_add_whole:
  assumes "0 \<le> e1" "0 \<le> e2" "\<bar>m1 * 2 ^ nat e1 + m2 * 2 ^ nat e2\<bar> < 2 ^ 53"
  shows "\<exists>m e. fin_add (m1, e1) (m2, e2) = Fin m e \<and> 0 \<le> e \<and>
           m * 2 ^ nat e = m1 * 2 ^ nat e1 + m2 * 2 ^ nat e2"
proof -
  define E where "E = min e1 e2"
  define M where "M = m1 * 2 ^ nat (e1 - E) + m2 * 2 ^ nat (e2 - E)"
  have E0: "0 \<le> E" using assms by (simp add: E_def)
  have p1: "(2::int) ^ nat e1 = 2 ^ nat (e1 - E) * 2 ^ nat E"
    using assms E0 by (simp add: E_def power_add [symmetric] nat_add_distrib [symmetric])
  have p2: "(2::int) ^ nat e2 = 2 ^ nat (e2 - E) * 2 ^ nat E"
    using assms E0 by (simp add: E_def power_add [symmetric] nat_add_distrib [symmetric])
  have S: "M * 2 ^ nat E = m1 * 2 ^ nat e1 + m2 * 2 ^ nat e2"
    by (simp add: M_def p1 p2 algebra_simps)
  show ?thesis
  proof (cases "M = 0")
    case True
    with S have "fin_add (m1, e1) (m2, e2) = Fin 0 0 \<and> (0::int) \<le> 0 \<and>
        0 * 2 ^ nat 0 = m1 * 2 ^ nat e1 + m2 * 2 ^ nat e2"
      by (simp add: fin_add_def Let_def E_def [symmetric] M_def [symmetric])
    then show ?thesis by blast
  next
    case False
    define n where "n = nat \<bar>M\<bar> * 2 ^ nat E"
    have in': "int n = \<bar>M * 2 ^ nat E\<bar>" by (simp add: n_def abs_mult)
    from False have n0: "0 < n" by (simp add: n_def)
    from in' S assms(3) have "int n < 2 ^ 53" by simp
    then have "int n < int (2 ^ 53)" by (simp only: of_nat_power of_nat_numeral)
    then have n53: "n < 2 ^ 53" by (simp only: of_nat_less_iff)
    from round64_small [OF n0 n53, of "M < 0"] obtain m e where
      r: "round64 (M < 0) n (Suc 0) = Fin m e" "0 \<le> e"
         "m * 2 ^ nat e = (if M < 0 then - int n else int n)" by blast
    have "(if M < 0 then - int n else int n) = M * 2 ^ nat E"
      by (simp add: in' abs_mult)
    with r(3) S have v: "m * 2 ^ nat e = m1 * 2 ^ nat e1 + m2 * 2 ^ nat e2" by simp
    have "fin_add (m1, e1) (m2, e2) = Fin m e"
      using False E0 r(1)
      by (simp add: fin_add_def Let_def E_def [symmetric] M_def [symmetric] n_def)
    with r(2) v show ?thesis by blast
  qed
qed

lemma val_whole: "0 \<le> e \<Longrightarrow> val (Fin m e) = of_int (m * 2 ^ nat e)"
  by (simp add: power_int_def)

lemma wholeE:
  assumes "whole x"
  obtains m e where "x = Fin m e" "0 \<le> e" "\<bar>m\<bar> * 2 ^ nat e < 2 ^ 53"
  using assms by (cases x) (auto simp: whole_def)

lemma fin_add_val:
  assumes "0 \<le> e1" "0 \<le> e2" "\<bar>m1 * 2 ^ nat e1 + m2 * 2 ^ nat e2\<bar> < 2 ^ 53"
  shows "whole (fin_add (m1, e1) (m2, e2)) \<and>
         val (fin_add (m1, e1) (m2, e2)) = of_int (m1 * 2 ^ nat e1 + m2 * 2 ^ nat e2)"
proof -
  from fin_add_whole [OF assms] obtain m e where
    r: "fin_add (m1, e1) (m2, e2) = Fin m e" "0 \<le> e"
       "m * 2 ^ nat e = m1 * 2 ^ nat e1 + m2 * 2 ^ nat e2" by blast
  from assms(3) r(3) have "\<bar>m\<bar> * 2 ^ nat e < 2 ^ 53"
    by (simp add: abs_mult [symmetric] del: abs_mult)
  with r(2) have "whole (Fin m e)" by (simp add: whole_def)
  moreover have "val (Fin m e) = of_int (m1 * 2 ^ nat e1 + m2 * 2 ^ nat e2)"
    by (simp only: val_whole [OF r(2)] r(3))
  ultimately show ?thesis by (simp only: r(1))
qed

lemma int_bound:
  "\<bar>(of_int k :: rat)\<bar> < 2 ^ 53 \<Longrightarrow> \<bar>k\<bar> < 2 ^ 53"
proof -
  assume "\<bar>(of_int k :: rat)\<bar> < 2 ^ 53"
  then have "(of_int \<bar>k\<bar> :: rat) < of_int (2 ^ 53)"
    by (simp only: of_int_abs of_int_power of_int_numeral)
  then show ?thesis by (simp only: of_int_less_iff)
qed

lemma whole_fadd:
  assumes "whole x" "whole y" "\<bar>val x + val y\<bar> < 2 ^ 53"
  shows "whole (fadd x y) \<and> val (fadd x y) = val x + val y"
proof -
  from assms(1) obtain m1 e1 where x: "x = Fin m1 e1" "0 \<le> e1" by (rule wholeE)
  from assms(2) obtain m2 e2 where y: "y = Fin m2 e2" "0 \<le> e2" by (rule wholeE)
  have vx: "val x = of_int (m1 * 2 ^ nat e1)" by (simp only: x val_whole [OF x(2)])
  have vy: "val y = of_int (m2 * 2 ^ nat e2)" by (simp only: y val_whole [OF y(2)])
  from assms(3) have "\<bar>(of_int (m1 * 2 ^ nat e1 + m2 * 2 ^ nat e2) :: rat)\<bar> < 2 ^ 53"
    by (simp only: vx vy of_int_add)
  then have b: "\<bar>m1 * 2 ^ nat e1 + m2 * 2 ^ nat e2\<bar> < 2 ^ 53" by (rule int_bound)
  have f: "fadd x y = fin_add (m1, e1) (m2, e2)" by (simp add: x y)
  from fin_add_val [OF x(2) y(2) b] show ?thesis
    by (simp only: f vx vy of_int_add)
qed

lemma whole_fsub:
  assumes "whole x" "whole y" "\<bar>val x - val y\<bar> < 2 ^ 53"
  shows "whole (fsub x y) \<and> val (fsub x y) = val x - val y"
proof -
  from assms(1) obtain m1 e1 where x: "x = Fin m1 e1" "0 \<le> e1" by (rule wholeE)
  from assms(2) obtain m2 e2 where y: "y = Fin m2 e2" "0 \<le> e2" by (rule wholeE)
  have vx: "val x = of_int (m1 * 2 ^ nat e1)" by (simp only: x val_whole [OF x(2)])
  have vy: "val y = of_int (m2 * 2 ^ nat e2)" by (simp only: y val_whole [OF y(2)])
  show ?thesis
  proof (cases "m2 = 0")
    case True
    from assms(3) have "\<bar>(of_int (m1 * 2 ^ nat e1 + 0 * 2 ^ nat 0) :: rat)\<bar> < 2 ^ 53"
      by (simp add: vx vy True)
    then have b: "\<bar>m1 * 2 ^ nat e1 + 0 * 2 ^ nat 0\<bar> < 2 ^ 53" by (rule int_bound)
    have f: "fsub x y = fin_add (m1, e1) (0, 0)" by (simp add: fsub_def x y True)
    from fin_add_val [OF x(2) order_refl b] show ?thesis
      by (simp add: f vx vy True)
  next
    case False
    from assms(3) have "\<bar>(of_int (m1 * 2 ^ nat e1 + (- m2) * 2 ^ nat e2) :: rat)\<bar> < 2 ^ 53"
      by (simp add: vx vy)
    then have b: "\<bar>m1 * 2 ^ nat e1 + (- m2) * 2 ^ nat e2\<bar> < 2 ^ 53" by (rule int_bound)
    have f: "fsub x y = fin_add (m1, e1) (- m2, e2)" by (simp add: fsub_def x y False)
    from fin_add_val [OF x(2) y(2) b] show ?thesis
      by (simp add: f vx vy)
  qed
qed

lemma powi_split:
  assumes "E \<le> e"
  shows "(2::rat) powi e = of_int (2 ^ nat (e - E)) * 2 powi E"
proof -
  have "(2::rat) powi e = 2 powi ((e - E) + E)" by simp
  also have "\<dots> = 2 powi (e - E) * 2 powi E" by (rule power_int_add) simp
  also have "(2::rat) powi (e - E) = of_int (2 ^ nat (e - E))"
    using assms by (simp add: power_int_def)
  finally show ?thesis .
qed

lemma flt_Fin:
  "flt (Fin m1 e1) (Fin m2 e2) = (val (Fin m1 e1) < val (Fin m2 e2))"
proof -
  define E where "E = min e1 e2"
  have E: "E \<le> e1" "E \<le> e2" by (simp_all add: E_def)
  have p: "(0::rat) < 2 powi E" by (simp add: zero_less_power_int)
  have "(val (Fin m1 e1) < val (Fin m2 e2)) =
        (of_int (m1 * 2 ^ nat (e1 - E)) * (2::rat) powi E
           < of_int (m2 * 2 ^ nat (e2 - E)) * 2 powi E)"
    by (simp add: powi_split [OF E(1)] powi_split [OF E(2)] mult.assoc)
  also have "\<dots> = ((of_int (m1 * 2 ^ nat (e1 - E)) :: rat) < of_int (m2 * 2 ^ nat (e2 - E)))"
    using p by (rule mult_less_cancel_right_pos)
  also have "\<dots> = (m1 * 2 ^ nat (e1 - E) < m2 * 2 ^ nat (e2 - E))"
    by (rule of_int_less_iff)
  finally show ?thesis by (simp add: Let_def E_def)
qed

lemma flt_val:
  assumes "is_fin x" "is_fin y"
  shows "flt x y = (val x < val y)"
proof -
  have a: "flt x y = flt (Fin (fst (parts x)) (snd (parts x))) (Fin (fst (parts y)) (snd (parts y)))"
    using assms by (cases x; cases y) simp_all
  have "val x = val (Fin (fst (parts x)) (snd (parts x)))" using assms(1) by (cases x) simp_all
  moreover have "val y = val (Fin (fst (parts y)) (snd (parts y)))"
    using assms(2) by (cases y) simp_all
  ultimately show ?thesis by (simp only: a flt_Fin)
qed

lemma fle0_val:
  assumes "is_fin x"
  shows "fle0 x = (val x \<le> 0)"
proof (cases x)
  case (Fin m e)
  have p: "((2::rat) powi e \<le> 0) = False" by (simp add: not_le zero_less_power_int)
  have "(of_int m * (2::rat) powi e \<le> 0) = (m \<le> 0)"
    by (simp add: mult_le_0_iff p)
  then show ?thesis by (simp add: Fin)
qed (use assms in simp_all)

lemma whole_fin: "whole x \<Longrightarrow> is_fin x"
  by (erule wholeE) simp

lemma whole_bound:
  assumes "whole x"
  shows "\<bar>val x\<bar> < 2 ^ 53"
proof -
  from assms obtain m e where x: "x = Fin m e" "0 \<le> e" "\<bar>m\<bar> * 2 ^ nat e < 2 ^ 53"
    by (rule wholeE)
  from x(3) have "\<bar>m * 2 ^ nat e\<bar> < 2 ^ 53" by (simp add: abs_mult)
  then have "(of_int \<bar>m * 2 ^ nat e\<bar> :: rat) < of_int (2 ^ 53)"
    by (simp only: of_int_less_iff)
  then show ?thesis
    by (simp only: x val_whole [OF x(2)] of_int_abs of_int_power of_int_numeral)
qed


section \<open>Evaluation on literals\<close>

lemma bitlen_0 [simp]: "bitlen 0 = 0"
  by (simp add: bitlen.simps)

lemma bitlen_Suc_0 [simp]: "bitlen (Suc 0) = Suc 0"
  by (simp add: bitlen.simps)

lemma bitlen_numeral [simp]: "bitlen (numeral k) = Suc (bitlen (numeral k div 2))"
  by (subst bitlen.simps) simp

lemma canon_0 [simp]: "canon 0 e = (0, 0)"
  by (simp add: canon.simps)

lemma canon_1 [simp]: "canon 1 e = (1, e)"
  by (simp add: canon.simps)

lemma canon_numeral [simp]:
  "canon (numeral k) e =
     (if even (numeral k :: int) then canon (numeral k div 2) (e + 1) else (numeral k, e))"
  by (subst canon.simps) simp

lemma nat_str_numeral [simp]:
  "nat_str (numeral k) =
     (if (numeral k :: nat) < 10 then [digit_char (numeral k)]
      else nat_str (numeral k div 10) @ [digit_char (numeral k mod 10)])"
  by (subst nat_str.simps) simp

lemma nat_str_small [simp]: "nat_str 0 = ''0''" "nat_str (Suc 0) = ''1''"
  by (simp_all add: nat_str.simps digit_char_def)

lemmas float_eval = round64_def ilog2_def rne_div_def fin_add_def Let_def fsub_def

lemmas str_eval = py_float_def parse_decimal_def parse_exponent_def split_sign_def dec_val_def
  is_dec_def lower_def strip_def py_isspace_def py_str_def digit_char_def str_isdigit_def
  py_isdigit_def

lemmas op_eval = create_account_def authenticate_def show_balance_def add_history_def
  set_balance_def deposit_def withdraw_def transfer_def view_history_def save_data_def
  load_data_def initial_def

lemma scenario_accounts:
  "accounts (data scenario) =
     [''1001'' \<mapsto> \<lparr>name = ''Asha Rao'', pin = ''1234'', balance = Fin 125 2,
                   history = [\<lparr>etime = ''09:00Z'', etype = ''create'', eamount = Fin 0 0,
                               enote = ''Account created''\<rparr>,
                              \<lparr>etime = ''09:01Z'', etype = ''deposit'', eamount = Fin 125 2,
                               enote = ''Cash deposit''\<rparr>]\<rparr>,
      ''1002'' \<mapsto> \<lparr>name = ''Ravi Iyer'', pin = ''4321'', balance = Fin 0 0,
                   history = [\<lparr>etime = ''09:03Z'', etype = ''create'', eamount = Fin 0 0,
                               enote = ''Account created''\<rparr>]\<rparr>]"
  by (simp add: scenario_def op_eval str_eval float_eval)

lemma scenario_next_acc: "next_acc (data scenario) = 1003"
  by (simp add: scenario_def op_eval str_eval float_eval)

lemma scenario_datafile: "datafile scenario = Some (data scenario)"
  by (simp add: scenario_def op_eval str_eval float_eval)

lemma big_store_accounts:
  "accounts (data big_store) =
     [''1001'' \<mapsto> \<lparr>name = ''Asha Rao'', pin = ''1234'', balance = Fin 152587890625 16,
                   history = [\<lparr>etime = ''09:00Z'', etype = ''create'', eamount = Fin 0 0,
                               enote = ''Account created''\<rparr>,
                              \<lparr>etime = ''09:02Z'', etype = ''deposit'',
                               eamount = Fin 152587890625 16, enote = ''Cash deposit''\<rparr>]\<rparr>,
      ''1002'' \<mapsto> \<lparr>name = ''Ravi Iyer'', pin = ''4321'', balance = Fin 3 0,
                   history = [\<lparr>etime = ''09:01Z'', etype = ''create'', eamount = Fin 0 0,
                               enote = ''Account created''\<rparr>,
                              \<lparr>etime = ''09:03Z'', etype = ''deposit'', eamount = Fin 3 0,
                               enote = ''Cash deposit''\<rparr>]\<rparr>]"
  by (simp add: big_store_def op_eval str_eval float_eval)

lemma big_store_after_accounts:
  "accounts (data big_store_after) =
     [''1001'' \<mapsto> \<lparr>name = ''Asha Rao'', pin = ''1234'', balance = Fin 152587890625 16,
                   history = [\<lparr>etime = ''09:00Z'', etype = ''create'', eamount = Fin 0 0,
                               enote = ''Account created''\<rparr>,
                              \<lparr>etime = ''09:02Z'', etype = ''deposit'',
                               eamount = Fin 152587890625 16, enote = ''Cash deposit''\<rparr>,
                              \<lparr>etime = ''09:05Z'', etype = ''transfer_in'', eamount = Fin 1 0,
                               enote = ''From 1002''\<rparr>]\<rparr>,
      ''1002'' \<mapsto> \<lparr>name = ''Ravi Iyer'', pin = ''4321'', balance = Fin 1 1,
                   history = [\<lparr>etime = ''09:01Z'', etype = ''create'', eamount = Fin 0 0,
                               enote = ''Account created''\<rparr>,
                              \<lparr>etime = ''09:03Z'', etype = ''deposit'', eamount = Fin 3 0,
                               enote = ''Cash deposit''\<rparr>,
                              \<lparr>etime = ''09:04Z'', etype = ''transfer_out'', eamount = Fin 1 0,
                               enote = ''To 1001''\<rparr>]\<rparr>]"
  by (simp add: big_store_after_def transfer_def add_history_def set_balance_def save_data_def
      big_store_accounts str_eval float_eval fun_upd_twist)

lemma nan_store_accounts:
  "accounts (data nan_store) =
     [''1001'' \<mapsto> \<lparr>name = ''Asha Rao'', pin = ''1234'', balance = NaN,
                   history = [\<lparr>etime = ''09:00Z'', etype = ''create'', eamount = Fin 0 0,
                               enote = ''Account created''\<rparr>,
                              \<lparr>etime = ''09:01Z'', etype = ''withdraw'', eamount = NaN,
                               enote = ''Cash withdrawal''\<rparr>]\<rparr>]"
  by (simp add: nan_store_def op_eval str_eval float_eval)

lemma whole_sub_ok:
  assumes "whole x" "whole y" "\<not> fle0 y" "\<not> flt x y"
  shows "whole (fsub x y) \<and> val (fsub x y) = val x - val y"
proof -
  from assms(2,3) have "0 < val y" by (simp add: fle0_val whole_fin)
  moreover from assms(1,2,4) have "val y \<le> val x" by (simp add: flt_val whole_fin)
  moreover from whole_bound [OF assms(1)] have "val x < 2 ^ 53" by simp
  ultimately have "\<bar>val x - val y\<bar> < 2 ^ 53" by simp
  with assms(1,2) show ?thesis by (rule whole_fsub)
qed

lemma whole_add_ok:
  assumes "whole x" "whole y" "\<not> fle0 y" "val x + val y < 2 ^ 53"
  shows "whole (fadd x y) \<and> val (fadd x y) = val x + val y"
proof -
  from assms(2,3) have "0 < val y" by (simp add: fle0_val whole_fin)
  moreover from whole_bound [OF assms(1)] have "- (2 ^ 53) < val x" by simp
  ultimately have "\<bar>val x + val y\<bar> < 2 ^ 53" using assms(4) by simp
  with assms(1,2) show ?thesis by (rule whole_fadd)
qed

section \<open>What each operation does to the state\<close>

lemma deposit_fail:
  "(\<exists>amt. fst (deposit w acc line now) = Deposited amt) \<or> snd (deposit w acc line now) = w"
  by (auto simp: deposit_def add_history_def set_balance_def Let_def
      split: option.splits if_splits)

lemma deposit_succ:
  assumes "fst (deposit w acc line now) = Deposited amt"
  shows "\<exists>a. accounts (data w) acc = Some a \<and> py_float (strip line) = Some amt \<and>
     \<not> fle0 amt \<and>
     data (snd (deposit w acc line now)) =
       (data w)\<lparr>accounts := (accounts (data w))(acc \<mapsto>
          a\<lparr>balance := fadd (balance a) amt,
            history := history a @
              [\<lparr>etime = now @ ''Z'', etype = ''deposit'', eamount = amt,
                enote = ''Cash deposit''\<rparr>]\<rparr>)\<rparr> \<and>
     datafile (snd (deposit w acc line now)) = Some (data (snd (deposit w acc line now)))"
  using assms
  by (auto simp: deposit_def add_history_def set_balance_def save_data_def Let_def
      split: option.splits if_splits)

lemma withdraw_fail:
  "(\<exists>amt. fst (withdraw w acc line now) = Withdrew amt) \<or> snd (withdraw w acc line now) = w"
  by (auto simp: withdraw_def add_history_def set_balance_def Let_def
      split: option.splits if_splits)

lemma withdraw_succ:
  assumes "fst (withdraw w acc line now) = Withdrew amt"
  shows "\<exists>a. accounts (data w) acc = Some a \<and> py_float (strip line) = Some amt \<and>
     \<not> fle0 amt \<and> \<not> flt (balance a) amt \<and>
     data (snd (withdraw w acc line now)) =
       (data w)\<lparr>accounts := (accounts (data w))(acc \<mapsto>
          a\<lparr>balance := fsub (balance a) amt,
            history := history a @
              [\<lparr>etime = now @ ''Z'', etype = ''withdraw'', eamount = amt,
                enote = ''Cash withdrawal''\<rparr>]\<rparr>)\<rparr> \<and>
     datafile (snd (withdraw w acc line now)) = Some (data (snd (withdraw w acc line now)))"
  using assms
  by (auto simp: withdraw_def add_history_def set_balance_def save_data_def Let_def
      split: option.splits if_splits)

lemma transfer_fail:
  "(\<exists>amt t. fst (transfer w acc to_line line now1 now2) = Transferred amt t) \<or>
   snd (transfer w acc to_line line now1 now2) = w"
  by (auto simp: transfer_def add_history_def set_balance_def Let_def
      split: option.splits if_splits)

lemma transfer_succ:
  assumes "fst (transfer w acc to_line line now1 now2) = Transferred amt t"
  shows "\<exists>a b. t = strip to_line \<and> t \<noteq> acc \<and> accounts (data w) acc = Some a \<and>
     accounts (data w) t = Some b \<and> py_float (strip line) = Some amt \<and>
     \<not> fle0 amt \<and> \<not> flt (balance a) amt \<and>
     data (snd (transfer w acc to_line line now1 now2)) =
       (data w)\<lparr>accounts := (accounts (data w))
         (acc \<mapsto> a\<lparr>balance := fsub (balance a) amt,
            history := history a @
              [\<lparr>etime = now1 @ ''Z'', etype = ''transfer_out'', eamount = amt,
                enote = ''To '' @ t\<rparr>]\<rparr>,
          t \<mapsto> b\<lparr>balance := fadd (balance b) amt,
            history := history b @
              [\<lparr>etime = now2 @ ''Z'', etype = ''transfer_in'', eamount = amt,
                enote = ''From '' @ acc\<rparr>]\<rparr>)\<rparr> \<and>
     datafile (snd (transfer w acc to_line line now1 now2)) =
       Some (data (snd (transfer w acc to_line line now1 now2)))"
  using assms
  by (auto simp: transfer_def add_history_def set_balance_def save_data_def Let_def
      fun_upd_twist split: option.splits if_splits)

lemma withdraw_outcome:
  "fst (withdraw w acc line now) =
     (case py_float (strip line) of
        None \<Rightarrow> Invalid_amount
      | Some amt \<Rightarrow>
          if fle0 amt then Amount_must_be_positive
          else case accounts (data w) acc of
                 None \<Rightarrow> KeyError
               | Some a \<Rightarrow> if flt (balance a) amt then Insufficient_funds else Withdrew amt)"
  by (simp add: withdraw_def add_history_def set_balance_def Let_def split: option.splits)

lemma deposit_outcome:
  "fst (deposit w acc line now) =
     (case py_float (strip line) of
        None \<Rightarrow> Invalid_amount
      | Some amt \<Rightarrow>
          if fle0 amt then Amount_must_be_positive
          else case accounts (data w) acc of
                 None \<Rightarrow> KeyError
               | Some a \<Rightarrow> Deposited amt)"
  by (simp add: deposit_def add_history_def set_balance_def Let_def split: option.splits)

lemma transfer_outcome:
  "fst (transfer w acc to_line line now1 now2) =
     (if strip to_line = acc then Cannot_transfer_to_same_account
      else if accounts (data w) (strip to_line) = None then Recipient_not_found
      else case py_float (strip line) of
             None \<Rightarrow> Invalid_amount
           | Some amt \<Rightarrow>
               if fle0 amt then Amount_must_be_positive
               else case accounts (data w) acc of
                      None \<Rightarrow> KeyError
                    | Some a \<Rightarrow> if flt (balance a) amt then Insufficient_funds
                                else Transferred amt (strip to_line))"
  by (simp add: transfer_def add_history_def set_balance_def Let_def split: option.splits)

section \<open>A failed transfer changes nothing\<close>

text \<open>
  C1. If a transfer does not go through, for whatever reason (same account, recipient
  not found, invalid amount, insufficient funds, or any other outcome than the transfer
  itself), the state after the call is the state before it: the dict with every account's
  balance and history, and the file.
\<close>

theorem transfer_failure_leaves_state:
  "fst (transfer w acc to_line line now1 now2) \<in>
      {Cannot_transfer_to_same_account, Recipient_not_found, Invalid_amount,
       Amount_must_be_positive, Insufficient_funds}
   \<or> (\<forall>amt t. fst (transfer w acc to_line line now1 now2) \<noteq> Transferred amt t)
   \<Longrightarrow> snd (transfer w acc to_line line now1 now2) = w"
  using transfer_fail [of w acc to_line line now1 now2] by auto

theorem transfer_failure_leaves_state_witness:
  "fst (transfer scenario ''1001'' ''1002'' ''500.01'' ''09:04'' ''09:05'') = Insufficient_funds
   \<and> fst (transfer scenario ''1001'' ''1001 '' ''5'' ''09:04'' ''09:05'') =
       Cannot_transfer_to_same_account
   \<and> snd (transfer scenario ''1001'' ''1002'' ''500.01'' ''09:04'' ''09:05'') = scenario
   \<and> snd (transfer scenario ''1001'' ''1001 '' ''5'' ''09:04'' ''09:05'') = scenario"
proof -
  have a: "fst (transfer scenario ''1001'' ''1002'' ''500.01'' ''09:04'' ''09:05'')
             = Insufficient_funds"
    by (simp add: transfer_def scenario_accounts str_eval float_eval)
  have b: "fst (transfer scenario ''1001'' ''1001 '' ''5'' ''09:04'' ''09:05'')
             = Cannot_transfer_to_same_account"
    by (simp add: transfer_def str_eval)
  show ?thesis
    using a b
      transfer_failure_leaves_state
        [of scenario "''1001''" "''1002''" "''500.01''" "''09:04''" "''09:05''"]
      transfer_failure_leaves_state
        [of scenario "''1001''" "''1001 ''" "''5''" "''09:04''" "''09:05''"]
    by simp
qed

section \<open>What a successful transfer does\<close>

text \<open>
  With floats, a successful transfer need not move both balances by the amount. In
  \<open>big_store\<close> the transfer of 1 from the account holding 10000000000000000 goes through
  and leaves that balance as it was, while the other balance goes from 3 to 4.
\<close>

theorem transfer_source_unchanged:
  "fst (transfer big_store ''1001'' ''1002'' ''1'' ''09:04'' ''09:05'')
      = Transferred (Fin 1 0) ''1002''
   \<and> balance_of big_store ''1001'' = Fin 152587890625 16
   \<and> balance_of (snd (transfer big_store ''1001'' ''1002'' ''1'' ''09:04'' ''09:05'')) ''1001''
       = Fin 152587890625 16
   \<and> val (Fin 152587890625 16) = 10000000000000000
   \<and> balance_of big_store ''1002'' = Fin 3 0
   \<and> balance_of (snd (transfer big_store ''1001'' ''1002'' ''1'' ''09:04'' ''09:05'')) ''1002''
       = Fin 1 2"
  by (simp add: transfer_def add_history_def set_balance_def save_data_def balance_of_def
      big_store_accounts str_eval float_eval)

text \<open>
  C6. A successful transfer of amount \<open>amt\<close> (the float read from the amount line) from
  \<open>acc\<close> to a distinct existing account \<open>t\<close> replaces the source balance by the float
  \<open>balance - amt\<close> and the destination balance by the float \<open>balance + amt\<close>, for the same
  \<open>amt\<close>. When the two balances and the amount are whole and the destination stays below
  \<open>2 ^ 53\<close>, nothing is rounded: the source balance decreases by exactly \<open>amt\<close> and the
  destination balance increases by exactly \<open>amt\<close>. One \<open>transfer_out\<close> entry is appended to
  the source history and one \<open>transfer_in\<close> entry to the destination history, both with
  amount \<open>amt\<close>, with notes "To t" and "From acc", and every other account is left as it
  was: exactly two entries are appended.
\<close>

theorem transfer_success_effect:
  assumes "fst (transfer w acc to_line line now1 now2) = Transferred amt t"
  shows "\<exists>a b a' b'.
     t = strip to_line \<and> t \<noteq> acc \<and> py_float (strip line) = Some amt \<and>
     accounts (data w) acc = Some a \<and> accounts (data w) t = Some b \<and>
     accounts (data (snd (transfer w acc to_line line now1 now2))) acc = Some a' \<and>
     accounts (data (snd (transfer w acc to_line line now1 now2))) t = Some b' \<and>
     balance a' = fsub (balance a) amt \<and>
     balance b' = fadd (balance b) amt \<and>
     (whole (balance a) \<and> whole (balance b) \<and> whole amt \<and>
      val (balance b) + val amt < 2 ^ 53 \<longrightarrow>
        val (balance a') = val (balance a) - val amt \<and>
        val (balance b') = val (balance b) + val amt) \<and>
     history a' = history a @
        [\<lparr>etime = now1 @ ''Z'', etype = ''transfer_out'', eamount = amt, enote = ''To '' @ t\<rparr>] \<and>
     history b' = history b @
        [\<lparr>etime = now2 @ ''Z'', etype = ''transfer_in'', eamount = amt, enote = ''From '' @ acc\<rparr>] \<and>
     (\<forall>k. k \<noteq> acc \<and> k \<noteq> t \<longrightarrow>
        accounts (data (snd (transfer w acc to_line line now1 now2))) k = accounts (data w) k)"
proof -
  from transfer_succ [OF assms] obtain a b where
    h: "t = strip to_line" "t \<noteq> acc" "accounts (data w) acc = Some a"
       "accounts (data w) t = Some b" "py_float (strip line) = Some amt"
    and c: "\<not> fle0 amt" "\<not> flt (balance a) amt"
    and d: "data (snd (transfer w acc to_line line now1 now2)) =
       (data w)\<lparr>accounts := (accounts (data w))
         (acc \<mapsto> a\<lparr>balance := fsub (balance a) amt,
            history := history a @
              [\<lparr>etime = now1 @ ''Z'', etype = ''transfer_out'', eamount = amt,
                enote = ''To '' @ t\<rparr>]\<rparr>,
          t \<mapsto> b\<lparr>balance := fadd (balance b) amt,
            history := history b @
              [\<lparr>etime = now2 @ ''Z'', etype = ''transfer_in'', eamount = amt,
                enote = ''From '' @ acc\<rparr>]\<rparr>)\<rparr>"
    by blast
  have e: "whole (balance a) \<and> whole (balance b) \<and> whole amt \<and>
      val (balance b) + val amt < 2 ^ 53 \<longrightarrow>
        val (fsub (balance a) amt) = val (balance a) - val amt \<and>
        val (fadd (balance b) amt) = val (balance b) + val amt"
    using c whole_sub_ok [of "balance a" amt] whole_add_ok [of "balance b" amt] by blast
  show ?thesis
    using h e by (simp add: d)
qed

theorem transfer_success_effect_witness:
  "fst (transfer scenario ''1001'' ''1002'' ''200.00'' ''09:04'' ''09:05'')
      = Transferred (Fin 25 3) ''1002''
   \<and> whole (balance_of scenario ''1001'') \<and> whole (balance_of scenario ''1002'')
   \<and> whole (Fin 25 3) \<and> val (balance_of scenario ''1002'') + val (Fin 25 3) < 2 ^ 53
   \<and> val (balance_of scenario ''1001'') = 500 \<and> val (balance_of scenario ''1002'') = 0
   \<and> val (Fin 25 3) = 200
   \<and> (\<exists>a b. accounts (data (snd (transfer scenario ''1001'' ''1002'' ''200.00'' ''09:04'' ''09:05''))) ''1001'' = Some a
      \<and> accounts (data (snd (transfer scenario ''1001'' ''1002'' ''200.00'' ''09:04'' ''09:05''))) ''1002'' = Some b
      \<and> val (balance a) = 300 \<and> val (balance b) = 200
      \<and> length (history a) = 3 \<and> length (history b) = 2
      \<and> enote (last (history a)) = ''To 1002'' \<and> enote (last (history b)) = ''From 1001'')"
proof -
  have h: "fst (transfer scenario ''1001'' ''1002'' ''200.00'' ''09:04'' ''09:05'')
      = Transferred (Fin 25 3) ''1002''"
    by (simp add: transfer_outcome scenario_accounts str_eval float_eval)
  have s: "whole (Fin 125 2)" "whole (Fin 0 0)" "whole (Fin 25 3)"
    "val (Fin 125 2) = 500" "val (Fin 25 3) = 200"
    by (simp_all add: whole_def)
  from transfer_success_effect [OF h] show ?thesis
    using h s
    by (elim exE conjE) (clarsimp simp add: scenario_accounts balance_of_def)
qed

section \<open>The checks of transfer\<close>

text \<open>
  C7. For an account \<open>acc\<close> of the store (the authenticated handle), transfer answers
  "Cannot transfer to the same account." whenever the destination typed is \<open>acc\<close>
  itself, "Recipient account not found." whenever the destination is not a key of the
  store, and otherwise applies to the source account the checks of withdraw: it answers
  "Invalid amount.", "Amount must be positive." or "Insufficient funds." exactly when
  withdraw on \<open>acc\<close> with the same amount line does, and goes through exactly when that
  withdrawal would.
\<close>

theorem transfer_checks:
  assumes "accounts (data w) acc \<noteq> None"
  shows "(strip to_line = acc \<longrightarrow>
            fst (transfer w acc to_line line now1 now2) = Cannot_transfer_to_same_account) \<and>
         (accounts (data w) (strip to_line) = None \<longrightarrow>
            fst (transfer w acc to_line line now1 now2) = Recipient_not_found) \<and>
         (strip to_line \<noteq> acc \<and> accounts (data w) (strip to_line) \<noteq> None \<longrightarrow>
            (fst (transfer w acc to_line line now1 now2) = Invalid_amount
               \<longleftrightarrow> fst (withdraw w acc line now) = Invalid_amount) \<and>
            (fst (transfer w acc to_line line now1 now2) = Amount_must_be_positive
               \<longleftrightarrow> fst (withdraw w acc line now) = Amount_must_be_positive) \<and>
            (fst (transfer w acc to_line line now1 now2) = Insufficient_funds
               \<longleftrightarrow> fst (withdraw w acc line now) = Insufficient_funds) \<and>
            ((\<exists>amt. fst (transfer w acc to_line line now1 now2) = Transferred amt (strip to_line))
               \<longleftrightarrow> (\<exists>amt. fst (withdraw w acc line now) = Withdrew amt)))"
  using assms
  by (auto simp: transfer_outcome withdraw_outcome split: option.splits)

theorem transfer_checks_witness:
  "accounts (data scenario) ''1001'' \<noteq> None
   \<and> fst (transfer scenario ''1001'' '' 1001'' ''5'' ''09:04'' ''09:05'') = Cannot_transfer_to_same_account
   \<and> fst (transfer scenario ''1001'' ''1003'' ''5'' ''09:04'' ''09:05'') = Recipient_not_found
   \<and> fst (transfer scenario ''1001'' ''1002'' ''five'' ''09:04'' ''09:05'') = Invalid_amount
   \<and> fst (transfer scenario ''1001'' ''1002'' ''-5'' ''09:04'' ''09:05'') = Amount_must_be_positive
   \<and> fst (transfer scenario ''1001'' ''1002'' ''500.01'' ''09:04'' ''09:05'') = Insufficient_funds"
proof -
  have h: "accounts (data scenario) ''1001'' \<noteq> None"
    by (simp add: scenario_accounts)
  have n: "accounts (data scenario) (strip ''1003'') = None" "strip '' 1001'' = ''1001''"
     "strip ''1002'' \<noteq> ''1001'' \<and> accounts (data scenario) (strip ''1002'') \<noteq> None"
    by (simp_all add: scenario_accounts str_eval)
  have w: "fst (withdraw scenario ''1001'' ''five'' ''09:04'') = Invalid_amount"
    "fst (withdraw scenario ''1001'' ''-5'' ''09:04'') = Amount_must_be_positive"
    "fst (withdraw scenario ''1001'' ''500.01'' ''09:04'') = Insufficient_funds"
    by (simp_all add: withdraw_outcome scenario_accounts str_eval float_eval)
  show ?thesis
    using h n w
      transfer_checks [OF h, of "'' 1001''" "''5''" "''09:04''" "''09:05''" "''09:04''"]
      transfer_checks [OF h, of "''1003''" "''5''" "''09:04''" "''09:05''" "''09:04''"]
      transfer_checks [OF h, of "''1002''" "''five''" "''09:04''" "''09:05''" "''09:04''"]
      transfer_checks [OF h, of "''1002''" "''-5''" "''09:04''" "''09:05''" "''09:04''"]
      transfer_checks [OF h, of "''1002''" "''500.01''" "''09:04''" "''09:05''" "''09:04''"]
    by simp
qed

section \<open>Reading the balance and the history\<close>

text \<open>
  C9. \<open>view_history\<close> gives the entries of the account newest first: the stored history,
  which \<open>add_history\<close> extends at its end, in reverse, so that the entry appended last
  comes first. Neither \<open>show_balance\<close> nor \<open>view_history\<close> changes the state, and asking
  again, with no operation in between, gives the same answer.
\<close>

theorem reads_leave_state_newest_first:
  "snd (view_history w acc) = w \<and> snd (show_balance w acc) = w \<and>
   view_history (snd (view_history w acc)) acc = view_history w acc \<and>
   show_balance (snd (show_balance w acc)) acc = show_balance w acc \<and>
   view_history (snd (show_balance w acc)) acc = view_history w acc \<and>
   show_balance (snd (view_history w acc)) acc = show_balance w acc \<and>
   (accounts (data w) acc = Some a \<longrightarrow>
      fst (view_history w acc) = Transaction_history (rev (history a)) \<and>
      fst (show_balance w acc) = Current_balance (balance a)) \<and>
   (accounts (data w) acc = Some a \<and> add_history (data w) acc typ amt nt now = Some d \<longrightarrow>
      fst (view_history (w\<lparr>data := d\<rparr>) acc) =
        Transaction_history
          (\<lparr>etime = now @ ''Z'', etype = typ, eamount = amt, enote = nt\<rparr> # rev (history a)))"
  by (auto simp: view_history_def show_balance_def add_history_def split: option.splits)

theorem reads_leave_state_newest_first_witness:
  "accounts (data scenario) ''1001'' =
     Some \<lparr>name = ''Asha Rao'', pin = ''1234'', balance = Fin 125 2,
           history = [\<lparr>etime = ''09:00Z'', etype = ''create'', eamount = Fin 0 0,
                       enote = ''Account created''\<rparr>,
                      \<lparr>etime = ''09:01Z'', etype = ''deposit'', eamount = Fin 125 2,
                       enote = ''Cash deposit''\<rparr>]\<rparr>
   \<and> fst (view_history scenario ''1001'') =
       Transaction_history
         [\<lparr>etime = ''09:01Z'', etype = ''deposit'', eamount = Fin 125 2,
            enote = ''Cash deposit''\<rparr>,
          \<lparr>etime = ''09:00Z'', etype = ''create'', eamount = Fin 0 0,
            enote = ''Account created''\<rparr>]
   \<and> fst (show_balance scenario ''1001'') = Current_balance (Fin 125 2)
   \<and> snd (view_history scenario ''1001'') = scenario
   \<and> view_history (snd (view_history scenario ''1001'')) ''1001'' = view_history scenario ''1001''"
proof -
  have h: "accounts (data scenario) ''1001'' =
     Some \<lparr>name = ''Asha Rao'', pin = ''1234'', balance = Fin 125 2,
           history = [\<lparr>etime = ''09:00Z'', etype = ''create'', eamount = Fin 0 0,
                       enote = ''Account created''\<rparr>,
                      \<lparr>etime = ''09:01Z'', etype = ''deposit'', eamount = Fin 125 2,
                       enote = ''Cash deposit''\<rparr>]\<rparr>"
    by (simp add: scenario_accounts)
  show ?thesis
    using h reads_leave_state_newest_first [of scenario "''1001''"
        "\<lparr>name = ''Asha Rao'', pin = ''1234'', balance = Fin 125 2,
           history = [\<lparr>etime = ''09:00Z'', etype = ''create'', eamount = Fin 0 0,
                       enote = ''Account created''\<rparr>,
                      \<lparr>etime = ''09:01Z'', etype = ''deposit'', eamount = Fin 125 2,
                       enote = ''Cash deposit''\<rparr>]\<rparr>"]
    by simp
qed

section \<open>Account numbers\<close>

lemma digit_char_code: "n < 10 \<Longrightarrow> (of_char (digit_char n) :: nat) = 48 + n"
proof -
  assume "n < 10"
  then have "n \<in> {0, 1, 2, 3, 4, 5, 6, 7, 8, 9}" by auto
  then show ?thesis by (auto simp: digit_char_def)
qed

lemma dec_val_snoc: "dec_val (ds @ [c]) = 10 * dec_val ds + ((of_char c :: nat) - 48)"
  by (simp add: dec_val_def)

lemma dec_val_nat_str: "dec_val (nat_str n) = n"
proof (induction n rule: nat_str.induct)
  case (1 n)
  show ?case
  proof (cases "n < 10")
    case True
    then show ?thesis
      by (subst nat_str.simps) (simp add: dec_val_def digit_char_code)
  next
    case False
    then have "dec_val (nat_str (n div 10)) = n div 10"
      using "1.IH" by simp
    with False show ?thesis
      by (subst nat_str.simps) (simp add: dec_val_snoc digit_char_code)
  qed
qed

lemma nat_str_inj: "nat_str m = nat_str n \<Longrightarrow> m = n"
  by (metis dec_val_nat_str)

lemma py_str_inj: "0 \<le> i \<Longrightarrow> 0 \<le> j \<Longrightarrow> py_str i = py_str j \<Longrightarrow> i = j"
  using nat_str_inj [of "nat i" "nat j"] by (simp add: py_str_def)

lemma py_str_inj_on: "inj_on py_str {1001 ..< n}"
  by (rule inj_onI) (rule py_str_inj, auto)

lemma create_fail:
  "(\<exists>k. fst (create_account w name_in ins now) = Account_created k) \<or>
   snd (create_account w name_in ins now) = w"
  by (auto simp: create_account_def Let_def split: option.splits)

lemma create_succ:
  assumes "fst (create_account w name_in ins now) = Account_created k"
  shows "\<exists>p. strip name_in \<noteq> [] \<and> pin_loop ins = Some p \<and> k = py_str (next_acc (data w)) \<and>
     data (snd (create_account w name_in ins now)) =
       \<lparr>next_acc = next_acc (data w) + 1,
        accounts = (accounts (data w))(k \<mapsto>
          \<lparr>name = strip name_in, pin = p, balance = Fin 0 0,
           history = [\<lparr>etime = now @ ''Z'', etype = ''create'', eamount = Fin 0 0,
                       enote = ''Account created''\<rparr>]\<rparr>)\<rparr> \<and>
     datafile (snd (create_account w name_in ins now)) =
       Some (data (snd (create_account w name_in ins now)))"
  using assms
  by (auto simp: create_account_def save_data_def Let_def split: option.splits if_splits)

lemma reads_same:
  "snd (authenticate w a p) = w" "snd (show_balance w k) = w" "snd (view_history w k) = w"
  by (simp_all add: authenticate_def show_balance_def view_history_def Let_def
      split: option.splits)

lemma keys_sequential_initial: "keys_sequential initial"
  by (simp add: keys_sequential_def initial_def load_data_def)

lemma keys_fresh:
  assumes "keys_sequential w"
  shows "accounts (data w) (py_str (next_acc (data w))) = None"
proof -
  have "py_str (next_acc (data w)) \<notin> py_str ` {1001 ..< next_acc (data w)}"
  proof
    assume "py_str (next_acc (data w)) \<in> py_str ` {1001 ..< next_acc (data w)}"
    then obtain j where j: "1001 \<le> j" "j < next_acc (data w)"
        "py_str (next_acc (data w)) = py_str j"
      by auto
    from assms have "1001 \<le> next_acc (data w)" by (simp add: keys_sequential_def)
    with j have "next_acc (data w) = j" by (intro py_str_inj) auto
    with j show False by simp
  qed
  with assms show ?thesis by (auto simp: keys_sequential_def)
qed

lemma deposit_keeps_keys:
  "next_acc (data (snd (deposit w acc line now))) = next_acc (data w) \<and>
   dom (accounts (data (snd (deposit w acc line now)))) = dom (accounts (data w))"
proof (cases "\<exists>amt. fst (deposit w acc line now) = Deposited amt")
  case True
  then obtain amt where "fst (deposit w acc line now) = Deposited amt" ..
  from deposit_succ [OF this] obtain a where
    a: "accounts (data w) acc = Some a" and
    d: "data (snd (deposit w acc line now)) =
       (data w)\<lparr>accounts := (accounts (data w))(acc \<mapsto>
          a\<lparr>balance := fadd (balance a) amt,
            history := history a @
              [\<lparr>etime = now @ ''Z'', etype = ''deposit'', eamount = amt,
                enote = ''Cash deposit''\<rparr>]\<rparr>)\<rparr>"
    by blast
  from a have "acc \<in> dom (accounts (data w))" by auto
  then show ?thesis by (simp add: d insert_absorb)
next
  case False
  with deposit_fail [of w acc line now] show ?thesis by simp
qed

lemma withdraw_keeps_keys:
  "next_acc (data (snd (withdraw w acc line now))) = next_acc (data w) \<and>
   dom (accounts (data (snd (withdraw w acc line now)))) = dom (accounts (data w))"
proof (cases "\<exists>amt. fst (withdraw w acc line now) = Withdrew amt")
  case True
  then obtain amt where "fst (withdraw w acc line now) = Withdrew amt" ..
  from withdraw_succ [OF this] obtain a where
    a: "accounts (data w) acc = Some a" and
    d: "data (snd (withdraw w acc line now)) =
       (data w)\<lparr>accounts := (accounts (data w))(acc \<mapsto>
          a\<lparr>balance := fsub (balance a) amt,
            history := history a @
              [\<lparr>etime = now @ ''Z'', etype = ''withdraw'', eamount = amt,
                enote = ''Cash withdrawal''\<rparr>]\<rparr>)\<rparr>"
    by blast
  from a have "acc \<in> dom (accounts (data w))" by auto
  then show ?thesis by (simp add: d insert_absorb)
next
  case False
  with withdraw_fail [of w acc line now] show ?thesis by simp
qed

lemma transfer_keeps_keys:
  "next_acc (data (snd (transfer w acc to_line line now1 now2))) = next_acc (data w) \<and>
   dom (accounts (data (snd (transfer w acc to_line line now1 now2)))) = dom (accounts (data w))"
proof (cases "\<exists>amt t. fst (transfer w acc to_line line now1 now2) = Transferred amt t")
  case True
  then obtain amt t where "fst (transfer w acc to_line line now1 now2) = Transferred amt t"
    by blast
  from transfer_succ [OF this] obtain a b where
    a: "accounts (data w) acc = Some a" "accounts (data w) t = Some b" and
    d: "data (snd (transfer w acc to_line line now1 now2)) =
       (data w)\<lparr>accounts := (accounts (data w))
         (acc \<mapsto> a\<lparr>balance := fsub (balance a) amt,
            history := history a @
              [\<lparr>etime = now1 @ ''Z'', etype = ''transfer_out'', eamount = amt,
                enote = ''To '' @ t\<rparr>]\<rparr>,
          t \<mapsto> b\<lparr>balance := fadd (balance b) amt,
            history := history b @
              [\<lparr>etime = now2 @ ''Z'', etype = ''transfer_in'', eamount = amt,
                enote = ''From '' @ acc\<rparr>]\<rparr>)\<rparr>"
    by blast
  from a have "acc \<in> dom (accounts (data w))" "t \<in> dom (accounts (data w))" by auto
  then show ?thesis by (simp add: d insert_absorb)
next
  case False
  with transfer_fail [of w acc to_line line now1 now2] show ?thesis by simp
qed

lemma keys_sequential_same:
  "keys_sequential w \<Longrightarrow> next_acc (data w') = next_acc (data w) \<Longrightarrow>
   dom (accounts (data w')) = dom (accounts (data w)) \<Longrightarrow> keys_sequential w'"
  by (simp add: keys_sequential_def)

lemma keys_sequential_step:
  assumes "keys_sequential w"
  shows "keys_sequential (snd (step w x))"
proof (cases x)
  case (Create name_in ins now)
  show ?thesis
  proof (cases "\<exists>k. fst (create_account w name_in ins now) = Account_created k")
    case True
    then obtain k where k: "fst (create_account w name_in ins now) = Account_created k" ..
    from create_succ [OF k] obtain p where
      kk: "k = py_str (next_acc (data w))" and
      d: "data (snd (create_account w name_in ins now)) =
       \<lparr>next_acc = next_acc (data w) + 1,
        accounts = (accounts (data w))(k \<mapsto>
          \<lparr>name = strip name_in, pin = p, balance = Fin 0 0,
           history = [\<lparr>etime = now @ ''Z'', etype = ''create'', eamount = Fin 0 0,
                       enote = ''Account created''\<rparr>]\<rparr>)\<rparr>"
      by blast
    from assms have n: "1001 \<le> next_acc (data w)"
      and dm: "dom (accounts (data w)) = py_str ` {1001 ..< next_acc (data w)}"
      by (simp_all add: keys_sequential_def)
    from n have "{1001 ..< next_acc (data w) + 1} =
        insert (next_acc (data w)) {1001 ..< next_acc (data w)}"
      by auto
    with n dm show ?thesis
      by (simp add: Create keys_sequential_def d kk)
  next
    case False
    with create_fail [of w name_in ins now] assms show ?thesis
      by (simp add: Create)
  qed
next
  case (Login a p)
  with assms show ?thesis by (simp add: reads_same)
next
  case (Balance k)
  with assms show ?thesis by (simp add: reads_same)
next
  case (Deposit acc line now)
  with assms deposit_keeps_keys [of w acc line now] show ?thesis
    by (auto intro: keys_sequential_same)
next
  case (Withdraw acc line now)
  with assms withdraw_keeps_keys [of w acc line now] show ?thesis
    by (auto intro: keys_sequential_same)
next
  case (Transfer acc to_line line now1 now2)
  with assms transfer_keeps_keys [of w acc to_line line now1 now2] show ?thesis
    by (auto intro: keys_sequential_same)
next
  case (History k)
  with assms show ?thesis by (simp add: reads_same)
qed

lemma keys_sequential_run: "keys_sequential w \<Longrightarrow> keys_sequential (run w xs)"
  by (induction xs arbitrary: w) (simp_all add: keys_sequential_step)

lemma keys_sequential_reachable: "keys_sequential (run initial xs)"
  by (simp add: keys_sequential_run keys_sequential_initial)

lemma keys_card:
  assumes "keys_sequential w"
  shows "next_acc (data w) = 1001 + int (card (dom (accounts (data w))))"
proof -
  from assms have n: "1001 \<le> next_acc (data w)"
    and dm: "dom (accounts (data w)) = py_str ` {1001 ..< next_acc (data w)}"
    by (simp_all add: keys_sequential_def)
  have "card (py_str ` {1001 ..< next_acc (data w)}) = card {1001 ..< next_acc (data w)}"
    by (rule card_image) (rule py_str_inj_on)
  with n dm show ?thesis by simp
qed

section \<open>Creating an account\<close>

text \<open>
  C8. In every state reached from the start without accounts.json by any operations:
  \<open>create_account\<close> with an empty name (after stripping) answers "Name cannot be empty."
  and leaves the state as it was. With a non-empty name, once the PIN prompts have
  yielded a confirmed four-digit PIN \<open>p\<close>, it answers with the decimal numeral of
  \<open>next_acc\<close>, which is 1001 plus the number of accounts created so far (so 1001 on a fresh
  store, then one more for each account) and is not yet a key of the store, increments
  \<open>next_acc\<close> by one, stores under that number an account with balance 0 and a history
  of exactly one \<open>create\<close> entry with amount 0, and writes the file.
\<close>

theorem create_account_allocates:
  assumes "w = run initial xs"
  shows "(strip name_in = [] \<longrightarrow>
            create_account w name_in ins now = (Name_cannot_be_empty, w)) \<and>
         (strip name_in \<noteq> [] \<and> pin_loop ins = Some p \<longrightarrow>
            next_acc (data w) = 1001 + int (card (dom (accounts (data w)))) \<and>
            accounts (data w) (py_str (next_acc (data w))) = None \<and>
            fst (create_account w name_in ins now) =
              Account_created (py_str (next_acc (data w))) \<and>
            data (snd (create_account w name_in ins now)) =
              \<lparr>next_acc = next_acc (data w) + 1,
               accounts = (accounts (data w))(py_str (next_acc (data w)) \<mapsto>
                 \<lparr>name = strip name_in, pin = p, balance = Fin 0 0,
                  history = [\<lparr>etime = now @ ''Z'', etype = ''create'', eamount = Fin 0 0,
                              enote = ''Account created''\<rparr>]\<rparr>)\<rparr> \<and>
            datafile (snd (create_account w name_in ins now)) =
              Some (data (snd (create_account w name_in ins now))))"
proof -
  from assms have k: "keys_sequential w"
    by (simp add: keys_sequential_reachable)
  have e: "strip name_in = [] \<longrightarrow>
            create_account w name_in ins now = (Name_cannot_be_empty, w)"
    by (simp add: create_account_def)
  have c: "strip name_in \<noteq> [] \<and> pin_loop ins = Some p \<longrightarrow>
            fst (create_account w name_in ins now) =
              Account_created (py_str (next_acc (data w))) \<and>
            data (snd (create_account w name_in ins now)) =
              \<lparr>next_acc = next_acc (data w) + 1,
               accounts = (accounts (data w))(py_str (next_acc (data w)) \<mapsto>
                 \<lparr>name = strip name_in, pin = p, balance = Fin 0 0,
                  history = [\<lparr>etime = now @ ''Z'', etype = ''create'', eamount = Fin 0 0,
                              enote = ''Account created''\<rparr>]\<rparr>)\<rparr> \<and>
            datafile (snd (create_account w name_in ins now)) =
              Some (data (snd (create_account w name_in ins now)))"
    by (simp add: create_account_def save_data_def Let_def)
  from e c keys_card [OF k] keys_fresh [OF k] show ?thesis by blast
qed

theorem create_account_allocates_witness:
  "scenario = run initial
     [Create ''Asha Rao'' [''1234'', ''1234''] ''09:00'',
      Deposit ''1001'' ''500.00'' ''09:01'',
      Withdraw ''1001'' ''600.00'' ''09:02'',
      Create '' Ravi Iyer '' [''12'', ''4321'', ''4321 ''] ''09:03'']
   \<and> strip ''Meena Das'' \<noteq> [] \<and> pin_loop [''0007'', ''0008'', ''0007'', ''0007''] = Some ''0007''
   \<and> strip ''  '' = []
   \<and> create_account scenario ''  '' [''0007'', ''0007''] ''09:10'' = (Name_cannot_be_empty, scenario)
   \<and> fst (create_account scenario ''Meena Das'' [''0007'', ''0008'', ''0007'', ''0007''] ''09:10'')
       = Account_created ''1003''
   \<and> accounts (data scenario) ''1003'' = None
   \<and> next_acc (data (snd (create_account scenario ''Meena Das''
        [''0007'', ''0008'', ''0007'', ''0007''] ''09:10''))) = 1004"
  (is "?given \<and> ?rest")
proof -
  have h: "scenario = run initial
     [Create ''Asha Rao'' [''1234'', ''1234''] ''09:00'',
      Deposit ''1001'' ''500.00'' ''09:01'',
      Withdraw ''1001'' ''600.00'' ''09:02'',
      Create '' Ravi Iyer '' [''12'', ''4321'', ''4321 ''] ''09:03'']"
    by (simp only: scenario_def)
  have p: "strip ''Meena Das'' \<noteq> [] \<and>
      pin_loop [''0007'', ''0008'', ''0007'', ''0007''] = Some ''0007''"
    "strip ''  '' = []"
    by (simp_all add: str_eval)
  have s: "py_str (next_acc (data scenario)) = ''1003''"
    by (simp add: scenario_next_acc str_eval)
  have ?rest
    using p s
      create_account_allocates [OF h, of "''  ''" "[''0007'', ''0007'']" "''09:10''" "''0007''"]
      create_account_allocates [OF h, of "''Meena Das''"
        "[''0007'', ''0008'', ''0007'', ''0007'']" "''09:10''" "''0007''"]
    by (simp add: scenario_next_acc str_eval)
  with h show ?thesis ..
qed

lemma step_history_prefix:
  assumes "keys_sequential w" and "accounts (data w) k = Some a"
  shows "\<exists>a' hs. accounts (data (snd (step w x))) k = Some a' \<and> history a' = history a @ hs"
proof (cases x)
  case (Create name_in ins now)
  show ?thesis
  proof (cases "\<exists>n. fst (create_account w name_in ins now) = Account_created n")
    case True
    then obtain n where n: "fst (create_account w name_in ins now) = Account_created n" ..
    from create_succ [OF n] obtain p where
      kk: "n = py_str (next_acc (data w))" and
      d: "data (snd (create_account w name_in ins now)) =
       \<lparr>next_acc = next_acc (data w) + 1,
        accounts = (accounts (data w))(n \<mapsto>
          \<lparr>name = strip name_in, pin = p, balance = Fin 0 0,
           history = [\<lparr>etime = now @ ''Z'', etype = ''create'', eamount = Fin 0 0,
                       enote = ''Account created''\<rparr>]\<rparr>)\<rparr>"
      by blast
    from keys_fresh [OF assms(1)] assms(2) kk have "k \<noteq> n" by auto
    with assms(2) show ?thesis by (simp add: Create d)
  next
    case False
    with create_fail [of w name_in ins now] assms(2) show ?thesis
      by (simp add: Create)
  qed
next
  case (Login acc p)
  with assms(2) show ?thesis by (simp add: reads_same)
next
  case (Balance acc)
  with assms(2) show ?thesis by (simp add: reads_same)
next
  case (Deposit acc line now)
  show ?thesis
  proof (cases "\<exists>amt. fst (deposit w acc line now) = Deposited amt")
    case True
    then obtain amt where "fst (deposit w acc line now) = Deposited amt" ..
    from deposit_succ [OF this] assms(2) show ?thesis
      by (auto simp: Deposit)
  next
    case False
    with deposit_fail [of w acc line now] assms(2) show ?thesis
      by (simp add: Deposit)
  qed
next
  case (Withdraw acc line now)
  show ?thesis
  proof (cases "\<exists>amt. fst (withdraw w acc line now) = Withdrew amt")
    case True
    then obtain amt where "fst (withdraw w acc line now) = Withdrew amt" ..
    from withdraw_succ [OF this] assms(2) show ?thesis
      by (auto simp: Withdraw)
  next
    case False
    with withdraw_fail [of w acc line now] assms(2) show ?thesis
      by (simp add: Withdraw)
  qed
next
  case (Transfer acc to_line line now1 now2)
  show ?thesis
  proof (cases "\<exists>amt t. fst (transfer w acc to_line line now1 now2) = Transferred amt t")
    case True
    then obtain amt t where "fst (transfer w acc to_line line now1 now2) = Transferred amt t"
      by blast
    from transfer_succ [OF this] assms(2) show ?thesis
      by (auto simp: Transfer)
  next
    case False
    with transfer_fail [of w acc to_line line now1 now2] assms(2) show ?thesis
      by (simp add: Transfer)
  qed
next
  case (History acc)
  with assms(2) show ?thesis by (simp add: reads_same)
qed

section \<open>What the operations leave alone\<close>

text \<open>
  C10. A deposit or withdrawal on account \<open>acc\<close> that goes through leaves every other
  account, the name and PIN of \<open>acc\<close> and \<open>next_acc\<close> as they were; a transfer that goes
  through leaves every account but the two named, their names and PINs, and \<open>next_acc\<close>
  as they were; \<open>authenticate\<close> leaves the whole state as it was. And in every state
  reached from the start without accounts.json, whatever operation comes next (creation
  of an account included), each account is still there afterwards and its history then
  begins with its history before: no entry is changed or removed.
\<close>

theorem operations_frame:
  "(fst (deposit w acc line now) = Deposited amt \<longrightarrow>
      next_acc (data (snd (deposit w acc line now))) = next_acc (data w) \<and>
      (\<forall>k. k \<noteq> acc \<longrightarrow>
         accounts (data (snd (deposit w acc line now))) k = accounts (data w) k) \<and>
      (\<exists>a a'. accounts (data w) acc = Some a \<and>
         accounts (data (snd (deposit w acc line now))) acc = Some a' \<and>
         name a' = name a \<and> pin a' = pin a)) \<and>
   (fst (withdraw w acc line now) = Withdrew amt \<longrightarrow>
      next_acc (data (snd (withdraw w acc line now))) = next_acc (data w) \<and>
      (\<forall>k. k \<noteq> acc \<longrightarrow>
         accounts (data (snd (withdraw w acc line now))) k = accounts (data w) k) \<and>
      (\<exists>a a'. accounts (data w) acc = Some a \<and>
         accounts (data (snd (withdraw w acc line now))) acc = Some a' \<and>
         name a' = name a \<and> pin a' = pin a)) \<and>
   (fst (transfer w acc to_line line now later) = Transferred amt t \<longrightarrow>
      next_acc (data (snd (transfer w acc to_line line now later))) = next_acc (data w) \<and>
      (\<forall>k. k \<noteq> acc \<and> k \<noteq> t \<longrightarrow>
         accounts (data (snd (transfer w acc to_line line now later))) k = accounts (data w) k) \<and>
      (\<exists>a a' b b'. accounts (data w) acc = Some a \<and> accounts (data w) t = Some b \<and>
         accounts (data (snd (transfer w acc to_line line now later))) acc = Some a' \<and>
         accounts (data (snd (transfer w acc to_line line now later))) t = Some b' \<and>
         name a' = name a \<and> pin a' = pin a \<and> name b' = name b \<and> pin b' = pin b)) \<and>
   snd (authenticate w acc_in pin_in) = w \<and>
   (accounts (data (run initial xs)) k = Some c \<longrightarrow>
      (\<exists>c' hs. accounts (data (snd (step (run initial xs) x))) k = Some c' \<and>
         history c' = history c @ hs))"
proof -
  have d: "fst (deposit w acc line now) = Deposited amt \<longrightarrow>
      next_acc (data (snd (deposit w acc line now))) = next_acc (data w) \<and>
      (\<forall>k. k \<noteq> acc \<longrightarrow>
         accounts (data (snd (deposit w acc line now))) k = accounts (data w) k) \<and>
      (\<exists>a a'. accounts (data w) acc = Some a \<and>
         accounts (data (snd (deposit w acc line now))) acc = Some a' \<and>
         name a' = name a \<and> pin a' = pin a)"
    using deposit_succ [of w acc line now amt] by auto
  have wd: "fst (withdraw w acc line now) = Withdrew amt \<longrightarrow>
      next_acc (data (snd (withdraw w acc line now))) = next_acc (data w) \<and>
      (\<forall>k. k \<noteq> acc \<longrightarrow>
         accounts (data (snd (withdraw w acc line now))) k = accounts (data w) k) \<and>
      (\<exists>a a'. accounts (data w) acc = Some a \<and>
         accounts (data (snd (withdraw w acc line now))) acc = Some a' \<and>
         name a' = name a \<and> pin a' = pin a)"
    using withdraw_succ [of w acc line now amt] by auto
  have t: "fst (transfer w acc to_line line now later) = Transferred amt t \<longrightarrow>
      next_acc (data (snd (transfer w acc to_line line now later))) = next_acc (data w) \<and>
      (\<forall>k. k \<noteq> acc \<and> k \<noteq> t \<longrightarrow>
         accounts (data (snd (transfer w acc to_line line now later))) k = accounts (data w) k) \<and>
      (\<exists>a a' b b'. accounts (data w) acc = Some a \<and> accounts (data w) t = Some b \<and>
         accounts (data (snd (transfer w acc to_line line now later))) acc = Some a' \<and>
         accounts (data (snd (transfer w acc to_line line now later))) t = Some b' \<and>
         name a' = name a \<and> pin a' = pin a \<and> name b' = name b \<and> pin b' = pin b)"
    using transfer_succ [of w acc to_line line now later amt t] by auto
  have a: "snd (authenticate w acc_in pin_in) = w"
    by (simp add: reads_same)
  have p: "accounts (data (run initial xs)) k = Some c \<longrightarrow>
      (\<exists>c' hs. accounts (data (snd (step (run initial xs) x))) k = Some c' \<and>
         history c' = history c @ hs)"
    using step_history_prefix [OF keys_sequential_reachable] by blast
  from d wd t a p show ?thesis by blast
qed

theorem operations_frame_witness:
  "fst (deposit scenario ''1001'' ''25.5'' ''09:10'') = Deposited (Fin 51 (- 1))
   \<and> fst (withdraw scenario ''1001'' ''100'' ''09:10'') = Withdrew (Fin 25 2)
   \<and> fst (transfer scenario ''1001'' ''1002'' ''200.00'' ''09:10'' ''09:11'')
       = Transferred (Fin 25 3) ''1002''
   \<and> accounts (data scenario) ''1002'' =
       Some \<lparr>name = ''Ravi Iyer'', pin = ''4321'', balance = Fin 0 0,
             history = [\<lparr>etime = ''09:03Z'', etype = ''create'', eamount = Fin 0 0,
                         enote = ''Account created''\<rparr>]\<rparr>
   \<and> accounts (data (snd (deposit scenario ''1001'' ''25.5'' ''09:10''))) ''1002''
       = accounts (data scenario) ''1002''
   \<and> accounts (data (snd (withdraw scenario ''1001'' ''100'' ''09:10''))) ''1002''
       = accounts (data scenario) ''1002''
   \<and> next_acc (data (snd (transfer scenario ''1001'' ''1002'' ''200.00'' ''09:10'' ''09:11'')))
       = 1003
   \<and> snd (authenticate scenario ''1001'' ''1234'') = scenario
   \<and> (\<exists>c' hs. accounts (data (snd (step scenario
          (Transfer ''1001'' ''1002'' ''200.00'' ''09:10'' ''09:11'')))) ''1002'' = Some c'
        \<and> history c' = [\<lparr>etime = ''09:03Z'', etype = ''create'', eamount = Fin 0 0,
                           enote = ''Account created''\<rparr>] @ hs)"
proof -
  have h: "fst (deposit scenario ''1001'' ''25.5'' ''09:10'') = Deposited (Fin 51 (- 1))"
    "fst (withdraw scenario ''1001'' ''100'' ''09:10'') = Withdrew (Fin 25 2)"
    "fst (transfer scenario ''1001'' ''1002'' ''200.00'' ''09:10'' ''09:11'')
       = Transferred (Fin 25 3) ''1002''"
    by (simp_all add: deposit_outcome withdraw_outcome transfer_outcome scenario_accounts
        str_eval float_eval)
  have i: "accounts (data scenario) ''1002'' =
       Some \<lparr>name = ''Ravi Iyer'', pin = ''4321'', balance = Fin 0 0,
             history = [\<lparr>etime = ''09:03Z'', etype = ''create'', eamount = Fin 0 0,
                         enote = ''Account created''\<rparr>]\<rparr>"
    by (simp add: scenario_accounts)
  note f = operations_frame [where xs = "[Create ''Asha Rao'' [''1234'', ''1234''] ''09:00'',
      Deposit ''1001'' ''500.00'' ''09:01'',
      Withdraw ''1001'' ''600.00'' ''09:02'',
      Create '' Ravi Iyer '' [''12'', ''4321'', ''4321 ''] ''09:03'']"
      and k = "''1002''"
      and c = "\<lparr>name = ''Ravi Iyer'', pin = ''4321'', balance = Fin 0 0,
             history = [\<lparr>etime = ''09:03Z'', etype = ''create'', eamount = Fin 0 0,
                         enote = ''Account created''\<rparr>]\<rparr>"
      and x = "Transfer ''1001'' ''1002'' ''200.00'' ''09:10'' ''09:11''"
      and w = scenario and acc = "''1001''" and now = "''09:10''"
      and acc_in = "''1001''" and pin_in = "''1234''", folded scenario_def]
  show ?thesis
    using h i
      f [where line = "''25.5''" and amt = "Fin 51 (- 1)"]
      f [where line = "''100''" and amt = "Fin 25 2"]
      f [where line = "''200.00''" and to_line = "''1002''" and later = "''09:11''"
        and amt = "Fin 25 3" and t = "''1002''"]
    by (simp add: scenario_next_acc del: step.simps)
qed

section \<open>Histories\<close>

lemma touched_deposit:
  "touched w (Deposit acc line now) k =
     (k = acc \<and> (\<exists>amt. fst (deposit w acc line now) = Deposited amt))"
  by (auto split: outcome.splits)

lemma touched_withdraw:
  "touched w (Withdraw acc line now) k =
     (k = acc \<and> (\<exists>amt. fst (withdraw w acc line now) = Withdrew amt))"
  by (auto split: outcome.splits)

lemma touched_transfer:
  "touched w (Transfer acc to_line line now1 now2) k =
     (\<exists>amt t. fst (transfer w acc to_line line now1 now2) = Transferred amt t \<and>
        (k = acc \<or> k = t))"
  by (auto split: outcome.splits)

lemma signed_sum_snoc:
  "signed_sum (hs @ [h]) =
     signed_sum hs
     + (if etype h \<in> {''create'', ''deposit'', ''transfer_in''} then val (eamount h) else 0)
     - (if etype h \<in> {''withdraw'', ''transfer_out''} then val (eamount h) else 0)"
  by (simp add: signed_sum_def)

lemma signed_sum_create:
  "signed_sum [\<lparr>etime = t, etype = ''create'', eamount = Fin 0 0, enote = n\<rparr>] = 0"
  by (simp add: signed_sum_def)

text \<open>The length of the history of account \<open>k\<close>, counting 1 for an account still to be created.\<close>

lemma step_history_length:
  assumes "keys_sequential w"
  shows "(case accounts (data (snd (step w x))) k of None \<Rightarrow> 1 | Some a \<Rightarrow> length (history a)) =
         (case accounts (data w) k of None \<Rightarrow> 1 | Some a \<Rightarrow> length (history a)) +
         (if touched w x k then 1 else 0)"
proof (cases x)
  case (Create name_in ins now)
  show ?thesis
  proof (cases "\<exists>n. fst (create_account w name_in ins now) = Account_created n")
    case True
    then obtain n where n: "fst (create_account w name_in ins now) = Account_created n" ..
    from create_succ [OF n] obtain p where
      kk: "n = py_str (next_acc (data w))" and
      d: "data (snd (create_account w name_in ins now)) =
       \<lparr>next_acc = next_acc (data w) + 1,
        accounts = (accounts (data w))(n \<mapsto>
          \<lparr>name = strip name_in, pin = p, balance = Fin 0 0,
           history = [\<lparr>etime = now @ ''Z'', etype = ''create'', eamount = Fin 0 0,
                       enote = ''Account created''\<rparr>]\<rparr>)\<rparr>"
      by blast
    from keys_fresh [OF assms] kk have "accounts (data w) n = None" by simp
    then show ?thesis by (simp add: Create d)
  next
    case False
    with create_fail [of w name_in ins now] show ?thesis
      by (simp add: Create)
  qed
next
  case (Login acc p)
  then show ?thesis by (simp add: reads_same)
next
  case (Balance acc)
  then show ?thesis by (simp add: reads_same)
next
  case (Deposit acc line now)
  show ?thesis
  proof (cases "\<exists>amt. fst (deposit w acc line now) = Deposited amt")
    case True
    then obtain amt where "fst (deposit w acc line now) = Deposited amt" ..
    from deposit_succ [OF this] True show ?thesis
      by (auto simp: Deposit touched_deposit simp del: touched.simps)
  next
    case False
    with deposit_fail [of w acc line now] show ?thesis
      by (simp add: Deposit touched_deposit del: touched.simps)
  qed
next
  case (Withdraw acc line now)
  show ?thesis
  proof (cases "\<exists>amt. fst (withdraw w acc line now) = Withdrew amt")
    case True
    then obtain amt where "fst (withdraw w acc line now) = Withdrew amt" ..
    from withdraw_succ [OF this] True show ?thesis
      by (auto simp: Withdraw touched_withdraw simp del: touched.simps)
  next
    case False
    with withdraw_fail [of w acc line now] show ?thesis
      by (simp add: Withdraw touched_withdraw del: touched.simps)
  qed
next
  case (Transfer acc to_line line now1 now2)
  show ?thesis
  proof (cases "\<exists>amt t. fst (transfer w acc to_line line now1 now2) = Transferred amt t")
    case True
    then obtain amt t where t: "fst (transfer w acc to_line line now1 now2) = Transferred amt t"
      by blast
    from transfer_succ [OF t] t show ?thesis
      by (auto simp: Transfer touched_transfer simp del: touched.simps)
  next
    case False
    with transfer_fail [of w acc to_line line now1 now2] show ?thesis
      by (simp add: Transfer touched_transfer del: touched.simps)
  qed
next
  case (History acc)
  then show ?thesis by (simp add: reads_same)
qed

lemma run_history_length:
  "keys_sequential w \<Longrightarrow>
   (case accounts (data (run w xs)) k of None \<Rightarrow> 1 | Some a \<Rightarrow> length (history a)) =
   (case accounts (data w) k of None \<Rightarrow> 1 | Some a \<Rightarrow> length (history a)) + touches w xs k"
proof (induction xs arbitrary: w)
  case Nil
  then show ?case by simp
next
  case (Cons x xs)
  from Cons.prems have "keys_sequential (snd (step w x))"
    by (rule keys_sequential_step)
  from Cons.IH [OF this] step_history_length [OF Cons.prems, of x k]
  show ?case by simp
qed

text \<open>
  As long as the operations stay in whole amounts, every balance is whole and is the
  signed sum of its history.
\<close>

lemma step_signed_sum:
  assumes inv: "\<forall>k a. accounts (data w) k = Some a \<longrightarrow>
             whole (balance a) \<and> signed_sum (history a) = val (balance a)"
    and ws: "whole_step w x"
  shows "\<forall>k a. accounts (data (snd (step w x))) k = Some a \<longrightarrow>
             whole (balance a) \<and> signed_sum (history a) = val (balance a)"
proof (cases x)
  case (Create name_in ins now)
  show ?thesis
  proof (cases "\<exists>n. fst (create_account w name_in ins now) = Account_created n")
    case True
    then obtain n where n: "fst (create_account w name_in ins now) = Account_created n" ..
    from create_succ [OF n] obtain p where
      d: "data (snd (create_account w name_in ins now)) =
       \<lparr>next_acc = next_acc (data w) + 1,
        accounts = (accounts (data w))(n \<mapsto>
          \<lparr>name = strip name_in, pin = p, balance = Fin 0 0,
           history = [\<lparr>etime = now @ ''Z'', etype = ''create'', eamount = Fin 0 0,
                       enote = ''Account created''\<rparr>]\<rparr>)\<rparr>"
      by blast
    show ?thesis
    proof (intro allI impI)
      fix k a
      assume h: "accounts (data (snd (step w x))) k = Some a"
      show "whole (balance a) \<and> signed_sum (history a) = val (balance a)"
      proof (cases "k = n")
        case True
        with h have "a = \<lparr>name = strip name_in, pin = p, balance = Fin 0 0,
           history = [\<lparr>etime = now @ ''Z'', etype = ''create'', eamount = Fin 0 0,
                       enote = ''Account created''\<rparr>]\<rparr>"
          by (simp add: Create d)
        then show ?thesis by (simp add: signed_sum_create whole_def)
      next
        case False
        with h have "accounts (data w) k = Some a" by (simp add: Create d)
        with inv show ?thesis by blast
      qed
    qed
  next
    case False
    with create_fail [of w name_in ins now] inv show ?thesis
      by (simp add: Create)
  qed
next
  case (Login acc p)
  with inv show ?thesis by (simp add: reads_same)
next
  case (Balance acc)
  with inv show ?thesis by (simp add: reads_same)
next
  case (Deposit acc line now)
  show ?thesis
  proof (cases "\<exists>amt. fst (deposit w acc line now) = Deposited amt")
    case True
    then obtain amt where s: "fst (deposit w acc line now) = Deposited amt" ..
    from deposit_succ [OF s] obtain a where
      a: "accounts (data w) acc = Some a" "\<not> fle0 amt" and
      d: "data (snd (deposit w acc line now)) =
       (data w)\<lparr>accounts := (accounts (data w))(acc \<mapsto>
          a\<lparr>balance := fadd (balance a) amt,
            history := history a @
              [\<lparr>etime = now @ ''Z'', etype = ''deposit'', eamount = amt,
                enote = ''Cash deposit''\<rparr>]\<rparr>)\<rparr>"
      by blast
    from ws s a(1) have w: "whole amt" "val (balance a) + val amt < 2 ^ 53"
      by (simp_all add: Deposit balance_of_def)
    from inv a(1) have i: "whole (balance a)" "signed_sum (history a) = val (balance a)"
      by blast+
    from whole_add_ok [OF i(1) w(1) a(2) w(2)]
    have r: "whole (fadd (balance a) amt)" "val (fadd (balance a) amt) = val (balance a) + val amt"
      by blast+
    show ?thesis
      using inv r i(2) by (auto simp: Deposit d signed_sum_snoc split: if_splits)
  next
    case False
    with deposit_fail [of w acc line now] inv show ?thesis
      by (simp add: Deposit)
  qed
next
  case (Withdraw acc line now)
  show ?thesis
  proof (cases "\<exists>amt. fst (withdraw w acc line now) = Withdrew amt")
    case True
    then obtain amt where s: "fst (withdraw w acc line now) = Withdrew amt" ..
    from withdraw_succ [OF s] obtain a where
      a: "accounts (data w) acc = Some a" "\<not> fle0 amt" "\<not> flt (balance a) amt" and
      d: "data (snd (withdraw w acc line now)) =
       (data w)\<lparr>accounts := (accounts (data w))(acc \<mapsto>
          a\<lparr>balance := fsub (balance a) amt,
            history := history a @
              [\<lparr>etime = now @ ''Z'', etype = ''withdraw'', eamount = amt,
                enote = ''Cash withdrawal''\<rparr>]\<rparr>)\<rparr>"
      by blast
    from ws s have w: "whole amt" by (simp add: Withdraw)
    from inv a(1) have i: "whole (balance a)" "signed_sum (history a) = val (balance a)"
      by blast+
    from whole_sub_ok [OF i(1) w a(2) a(3)]
    have r: "whole (fsub (balance a) amt)" "val (fsub (balance a) amt) = val (balance a) - val amt"
      by blast+
    show ?thesis
      using inv r i(2) by (auto simp: Withdraw d signed_sum_snoc split: if_splits)
  next
    case False
    with withdraw_fail [of w acc line now] inv show ?thesis
      by (simp add: Withdraw)
  qed
next
  case (Transfer acc to_line line now1 now2)
  show ?thesis
  proof (cases "\<exists>amt t. fst (transfer w acc to_line line now1 now2) = Transferred amt t")
    case True
    then obtain amt t where s: "fst (transfer w acc to_line line now1 now2) = Transferred amt t"
      by blast
    from transfer_succ [OF s] obtain a b where
      a: "t \<noteq> acc" "accounts (data w) acc = Some a" "accounts (data w) t = Some b"
         "\<not> fle0 amt" "\<not> flt (balance a) amt" and
      d: "data (snd (transfer w acc to_line line now1 now2)) =
       (data w)\<lparr>accounts := (accounts (data w))
         (acc \<mapsto> a\<lparr>balance := fsub (balance a) amt,
            history := history a @
              [\<lparr>etime = now1 @ ''Z'', etype = ''transfer_out'', eamount = amt,
                enote = ''To '' @ t\<rparr>]\<rparr>,
          t \<mapsto> b\<lparr>balance := fadd (balance b) amt,
            history := history b @
              [\<lparr>etime = now2 @ ''Z'', etype = ''transfer_in'', eamount = amt,
                enote = ''From '' @ acc\<rparr>]\<rparr>)\<rparr>"
      by blast
    from ws s a(3) have w: "whole amt" "val (balance b) + val amt < 2 ^ 53"
      by (simp_all add: Transfer balance_of_def)
    from inv a(2) have i: "whole (balance a)" "signed_sum (history a) = val (balance a)"
      by blast+
    from inv a(3) have j: "whole (balance b)" "signed_sum (history b) = val (balance b)"
      by blast+
    from whole_sub_ok [OF i(1) w(1) a(4) a(5)]
    have r: "whole (fsub (balance a) amt)" "val (fsub (balance a) amt) = val (balance a) - val amt"
      by blast+
    from whole_add_ok [OF j(1) w(1) a(4) w(2)]
    have q: "whole (fadd (balance b) amt)" "val (fadd (balance b) amt) = val (balance b) + val amt"
      by blast+
    show ?thesis
      using inv r q i(2) j(2) a(1)
      by (auto simp: Transfer d signed_sum_snoc split: if_splits)
  next
    case False
    with transfer_fail [of w acc to_line line now1 now2] inv show ?thesis
      by (simp add: Transfer)
  qed
next
  case (History acc)
  with inv show ?thesis by (simp add: reads_same)
qed

lemma run_signed_sum:
  "\<forall>k a. accounts (data w) k = Some a \<longrightarrow>
      whole (balance a) \<and> signed_sum (history a) = val (balance a) \<Longrightarrow>
   whole_run w xs \<Longrightarrow>
   \<forall>k a. accounts (data (run w xs)) k = Some a \<longrightarrow>
      whole (balance a) \<and> signed_sum (history a) = val (balance a)"
proof (induction xs arbitrary: w)
  case Nil
  then show ?case by simp
next
  case (Cons x xs)
  from Cons.prems(2) have s: "whole_step w x" "whole_run (snd (step w x)) xs" by simp_all
  from Cons.IH [OF step_signed_sum [OF Cons.prems(1) s(1)] s(2)] show ?case by simp
qed

text \<open>
  With floats, the signed sum of the amounts of a history can differ from the balance.
  In \<open>big_store_after\<close> the first account has three entries, a create entry and two
  operations that went through, of amounts 0, 10000000000000000 and 1, and its balance is
  10000000000000000.
\<close>

theorem signed_sum_differs:
  "big_store_after = run initial
     [Create ''Asha Rao'' [''1234'', ''1234''] ''09:00'',
      Create ''Ravi Iyer'' [''4321'', ''4321''] ''09:01'',
      Deposit ''1001'' ''10000000000000000'' ''09:02'',
      Deposit ''1002'' ''3'' ''09:03'',
      Transfer ''1002'' ''1001'' ''1'' ''09:04'' ''09:05'']
   \<and> length (history_of big_store_after ''1001'') = 3
   \<and> signed_sum (history_of big_store_after ''1001'') = 10000000000000001
   \<and> val (balance_of big_store_after ''1001'') = 10000000000000000"
proof -
  have "big_store_after = run initial
     [Create ''Asha Rao'' [''1234'', ''1234''] ''09:00'',
      Create ''Ravi Iyer'' [''4321'', ''4321''] ''09:01'',
      Deposit ''1001'' ''10000000000000000'' ''09:02'',
      Deposit ''1002'' ''3'' ''09:03'',
      Transfer ''1002'' ''1001'' ''1'' ''09:04'' ''09:05'']"
    by (simp only: big_store_after_def big_store_def run.simps)
  then show ?thesis
    by (simp add: history_of_def balance_of_def big_store_after_accounts signed_sum_def)
qed

text \<open>
  C4. In every state reached from the empty store, the history of an account has one entry
  more than the number of deposits, withdrawals and transfers that went through and changed
  its balance (the first entry is the one written by \<open>create_account\<close>). When the
  operations stay in whole amounts, the signed sum of the amounts of the history (create,
  deposit and transfer_in entries counted positively, withdraw and transfer_out entries
  negatively) is exactly the balance.
\<close>

theorem history_length_and_signed_sum:
  assumes "accounts (data (run initial xs)) k = Some a"
  shows "length (history a) = touches initial xs k + 1 \<and>
         (whole_run initial xs \<longrightarrow> signed_sum (history a) = val (balance a))"
proof -
  have "accounts (data initial) k = None"
    by (simp add: initial_def load_data_def)
  with run_history_length [OF keys_sequential_initial, of xs k] assms
  have l: "length (history a) = touches initial xs k + 1" by simp
  have i: "\<forall>k a. accounts (data initial) k = Some a \<longrightarrow>
      whole (balance a) \<and> signed_sum (history a) = val (balance a)"
    by (simp add: initial_def load_data_def)
  have "whole_run initial xs \<longrightarrow> signed_sum (history a) = val (balance a)"
    using run_signed_sum [OF i, of xs] assms by blast
  with l show ?thesis ..
qed

theorem history_length_and_signed_sum_witness:
  "accounts (data scenario) ''1001'' =
     Some \<lparr>name = ''Asha Rao'', pin = ''1234'', balance = Fin 125 2,
           history = [\<lparr>etime = ''09:00Z'', etype = ''create'', eamount = Fin 0 0,
                       enote = ''Account created''\<rparr>,
                      \<lparr>etime = ''09:01Z'', etype = ''deposit'', eamount = Fin 125 2,
                       enote = ''Cash deposit''\<rparr>]\<rparr>
   \<and> whole_run initial
        [Create ''Asha Rao'' [''1234'', ''1234''] ''09:00'',
         Deposit ''1001'' ''500.00'' ''09:01'',
         Withdraw ''1001'' ''600.00'' ''09:02'',
         Create '' Ravi Iyer '' [''12'', ''4321'', ''4321 ''] ''09:03'']
   \<and> touches initial
        [Create ''Asha Rao'' [''1234'', ''1234''] ''09:00'',
         Deposit ''1001'' ''500.00'' ''09:01'',
         Withdraw ''1001'' ''600.00'' ''09:02'',
         Create '' Ravi Iyer '' [''12'', ''4321'', ''4321 ''] ''09:03''] ''1001'' = 1
   \<and> signed_sum [\<lparr>etime = ''09:00Z'', etype = ''create'', eamount = Fin 0 0,
                enote = ''Account created''\<rparr>,
               \<lparr>etime = ''09:01Z'', etype = ''deposit'', eamount = Fin 125 2,
                enote = ''Cash deposit''\<rparr>] = 500
   \<and> val (Fin 125 2) = 500"
proof -
  have a: "accounts (data scenario) ''1001'' =
     Some \<lparr>name = ''Asha Rao'', pin = ''1234'', balance = Fin 125 2,
           history = [\<lparr>etime = ''09:00Z'', etype = ''create'', eamount = Fin 0 0,
                       enote = ''Account created''\<rparr>,
                      \<lparr>etime = ''09:01Z'', etype = ''deposit'', eamount = Fin 125 2,
                       enote = ''Cash deposit''\<rparr>]\<rparr>"
    by (simp add: scenario_accounts)
  have r: "whole_run initial
        [Create ''Asha Rao'' [''1234'', ''1234''] ''09:00'',
         Deposit ''1001'' ''500.00'' ''09:01'',
         Withdraw ''1001'' ''600.00'' ''09:02'',
         Create '' Ravi Iyer '' [''12'', ''4321'', ''4321 ''] ''09:03'']"
    by (simp add: op_eval str_eval float_eval whole_def balance_of_def)
  have v: "val (Fin 125 2) = 500" by simp
  note t = history_length_and_signed_sum [where xs = "[Create ''Asha Rao'' [''1234'', ''1234''] ''09:00'',
      Deposit ''1001'' ''500.00'' ''09:01'',
      Withdraw ''1001'' ''600.00'' ''09:02'',
      Create '' Ravi Iyer '' [''12'', ''4321'', ''4321 ''] ''09:03'']"
      and k = "''1001''", folded scenario_def]
  from t [OF a] a r v show ?thesis
    by (simp del: touches.simps whole_run.simps)
qed

section \<open>The sum of the balances\<close>

lemma sum_upd:
  assumes "finite (dom m)" "m k = Some a"
  shows "(\<Sum>j\<in>dom (m(k \<mapsto> a')). f (the ((m(k \<mapsto> a')) j))) =
         (\<Sum>j\<in>dom m. f (the (m j))) - f a + (f a' :: rat)"
proof -
  from assms(2) have k: "k \<in> dom m" by auto
  then have d: "dom (m(k \<mapsto> a')) = dom m" by auto
  have "(\<Sum>j\<in>dom m. f (the ((m(k \<mapsto> a')) j))) =
        f (the ((m(k \<mapsto> a')) k)) + (\<Sum>j\<in>dom m - {k}. f (the ((m(k \<mapsto> a')) j)))"
    using assms(1) k by (rule sum.remove)
  also have "(\<Sum>j\<in>dom m - {k}. f (the ((m(k \<mapsto> a')) j))) =
             (\<Sum>j\<in>dom m - {k}. f (the (m j)))"
    by (rule sum.cong) simp_all
  finally have l: "(\<Sum>j\<in>dom m. f (the ((m(k \<mapsto> a')) j))) =
                f a' + (\<Sum>j\<in>dom m - {k}. f (the (m j)))" by simp
  have "(\<Sum>j\<in>dom m. f (the (m j))) = f (the (m k)) + (\<Sum>j\<in>dom m - {k}. f (the (m j)))"
    using assms(1) k by (rule sum.remove)
  with assms(2) have r: "(\<Sum>j\<in>dom m. f (the (m j))) = f a + (\<Sum>j\<in>dom m - {k}. f (the (m j)))"
    by simp
  show ?thesis by (simp only: d l r)
qed

lemma total_upd:
  assumes "finite (dom (accounts (data w)))" "accounts (data w) k = Some a"
    and "accounts (data w') = (accounts (data w))(k \<mapsto> a')"
  shows "total w' = total w - val (balance a) + val (balance a') \<and>
         finite (dom (accounts (data w')))"
proof -
  from assms(2) have "k \<in> dom (accounts (data w))" by auto
  then have "dom ((accounts (data w))(k \<mapsto> a')) = dom (accounts (data w))" by auto
  with assms(1) have "finite (dom (accounts (data w')))" by (simp add: assms(3))
  moreover have "total w' = total w - val (balance a) + val (balance a')"
    unfolding total_def assms(3)
    using sum_upd [OF assms(1,2), where a' = a' and f = "\<lambda>x. val (balance x)"] .
  ultimately show ?thesis by simp
qed

text \<open>
  An operation other than a creation that stays in whole amounts changes the total by what
  it pays in or out, and keeps the balances whole.
\<close>

lemma step_total:
  assumes fin: "finite (dom (accounts (data w)))"
    and inv: "whole_balances w"
    and nc: "\<not> is_create x"
    and ws: "whole_step w x"
  shows "total (snd (step w x)) = total w + delta w x \<and>
         finite (dom (accounts (data (snd (step w x))))) \<and>
         whole_balances (snd (step w x))"
proof (cases x)
  case (Create name_in ins now)
  with nc show ?thesis by simp
next
  case (Login acc p)
  with fin inv show ?thesis by (simp add: reads_same)
next
  case (Balance acc)
  with fin inv show ?thesis by (simp add: reads_same)
next
  case (Deposit acc line now)
  show ?thesis
  proof (cases "\<exists>amt. fst (deposit w acc line now) = Deposited amt")
    case True
    then obtain amt where s: "fst (deposit w acc line now) = Deposited amt" ..
    from deposit_succ [OF s] obtain a where
      a: "accounts (data w) acc = Some a" "\<not> fle0 amt" and
      d: "data (snd (deposit w acc line now)) =
       (data w)\<lparr>accounts := (accounts (data w))(acc \<mapsto>
          a\<lparr>balance := fadd (balance a) amt,
            history := history a @
              [\<lparr>etime = now @ ''Z'', etype = ''deposit'', eamount = amt,
                enote = ''Cash deposit''\<rparr>]\<rparr>)\<rparr>"
      by blast
    from ws s a(1) have w: "whole amt" "val (balance a) + val amt < 2 ^ 53"
      by (simp_all add: Deposit balance_of_def)
    from inv a(1) have i: "whole (balance a)" by (simp add: whole_balances_def)
    from whole_add_ok [OF i w(1) a(2) w(2)]
    have r: "whole (fadd (balance a) amt)" "val (fadd (balance a) amt) = val (balance a) + val amt"
      by blast+
    have u: "accounts (data (snd (deposit w acc line now))) = (accounts (data w))(acc \<mapsto>
          a\<lparr>balance := fadd (balance a) amt,
            history := history a @
              [\<lparr>etime = now @ ''Z'', etype = ''deposit'', eamount = amt,
                enote = ''Cash deposit''\<rparr>]\<rparr>)"
      by (simp add: d)
    from total_upd [OF fin a(1) u] r(2)
    have "total (snd (deposit w acc line now)) = total w + val amt"
      "finite (dom (accounts (data (snd (deposit w acc line now)))))" by simp_all
    moreover have "whole_balances (snd (deposit w acc line now))"
      using inv r(1) by (auto simp: whole_balances_def u split: if_splits)
    ultimately show ?thesis by (simp add: Deposit s)
  next
    case False
    with deposit_fail [of w acc line now] have e: "snd (deposit w acc line now) = w" by blast
    from False have "delta w x = 0" by (auto simp: Deposit split: outcome.splits)
    with e fin inv show ?thesis by (simp add: Deposit)
  qed
next
  case (Withdraw acc line now)
  show ?thesis
  proof (cases "\<exists>amt. fst (withdraw w acc line now) = Withdrew amt")
    case True
    then obtain amt where s: "fst (withdraw w acc line now) = Withdrew amt" ..
    from withdraw_succ [OF s] obtain a where
      a: "accounts (data w) acc = Some a" "\<not> fle0 amt" "\<not> flt (balance a) amt" and
      d: "data (snd (withdraw w acc line now)) =
       (data w)\<lparr>accounts := (accounts (data w))(acc \<mapsto>
          a\<lparr>balance := fsub (balance a) amt,
            history := history a @
              [\<lparr>etime = now @ ''Z'', etype = ''withdraw'', eamount = amt,
                enote = ''Cash withdrawal''\<rparr>]\<rparr>)\<rparr>"
      by blast
    from ws s have w: "whole amt" by (simp add: Withdraw)
    from inv a(1) have i: "whole (balance a)" by (simp add: whole_balances_def)
    from whole_sub_ok [OF i w a(2) a(3)]
    have r: "whole (fsub (balance a) amt)" "val (fsub (balance a) amt) = val (balance a) - val amt"
      by blast+
    have u: "accounts (data (snd (withdraw w acc line now))) = (accounts (data w))(acc \<mapsto>
          a\<lparr>balance := fsub (balance a) amt,
            history := history a @
              [\<lparr>etime = now @ ''Z'', etype = ''withdraw'', eamount = amt,
                enote = ''Cash withdrawal''\<rparr>]\<rparr>)"
      by (simp add: d)
    from total_upd [OF fin a(1) u] r(2)
    have "total (snd (withdraw w acc line now)) = total w - val amt"
      "finite (dom (accounts (data (snd (withdraw w acc line now)))))" by simp_all
    moreover have "whole_balances (snd (withdraw w acc line now))"
      using inv r(1) by (auto simp: whole_balances_def u split: if_splits)
    ultimately show ?thesis by (simp add: Withdraw s)
  next
    case False
    with withdraw_fail [of w acc line now] have e: "snd (withdraw w acc line now) = w" by blast
    from False have "delta w x = 0" by (auto simp: Withdraw split: outcome.splits)
    with e fin inv show ?thesis by (simp add: Withdraw)
  qed
next
  case (Transfer acc to_line line now1 now2)
  show ?thesis
  proof (cases "\<exists>amt t. fst (transfer w acc to_line line now1 now2) = Transferred amt t")
    case True
    then obtain amt t where s: "fst (transfer w acc to_line line now1 now2) = Transferred amt t"
      by blast
    from transfer_succ [OF s] obtain a b where
      a: "t \<noteq> acc" "accounts (data w) acc = Some a" "accounts (data w) t = Some b"
         "\<not> fle0 amt" "\<not> flt (balance a) amt" and
      d: "data (snd (transfer w acc to_line line now1 now2)) =
       (data w)\<lparr>accounts := (accounts (data w))
         (acc \<mapsto> a\<lparr>balance := fsub (balance a) amt,
            history := history a @
              [\<lparr>etime = now1 @ ''Z'', etype = ''transfer_out'', eamount = amt,
                enote = ''To '' @ t\<rparr>]\<rparr>,
          t \<mapsto> b\<lparr>balance := fadd (balance b) amt,
            history := history b @
              [\<lparr>etime = now2 @ ''Z'', etype = ''transfer_in'', eamount = amt,
                enote = ''From '' @ acc\<rparr>]\<rparr>)\<rparr>"
      by blast
    from ws s a(3) have w: "whole amt" "val (balance b) + val amt < 2 ^ 53"
      by (simp_all add: Transfer balance_of_def)
    from inv a(2) have i: "whole (balance a)" by (simp add: whole_balances_def)
    from inv a(3) have j: "whole (balance b)" by (simp add: whole_balances_def)
    from whole_sub_ok [OF i w(1) a(4) a(5)]
    have r: "whole (fsub (balance a) amt)" "val (fsub (balance a) amt) = val (balance a) - val amt"
      by blast+
    from whole_add_ok [OF j w(1) a(4) w(2)]
    have q: "whole (fadd (balance b) amt)" "val (fadd (balance b) amt) = val (balance b) + val amt"
      by blast+
    define a' where "a' = a\<lparr>balance := fsub (balance a) amt,
            history := history a @
              [\<lparr>etime = now1 @ ''Z'', etype = ''transfer_out'', eamount = amt,
                enote = ''To '' @ t\<rparr>]\<rparr>"
    define b' where "b' = b\<lparr>balance := fadd (balance b) amt,
            history := history b @
              [\<lparr>etime = now2 @ ''Z'', etype = ''transfer_in'', eamount = amt,
                enote = ''From '' @ acc\<rparr>]\<rparr>"
    define w1 where "w1 = w\<lparr>data := (data w)\<lparr>accounts := (accounts (data w))(acc \<mapsto> a')\<rparr>\<rparr>"
    have u1: "accounts (data w1) = (accounts (data w))(acc \<mapsto> a')" by (simp add: w1_def)
    have u2: "accounts (data (snd (transfer w acc to_line line now1 now2))) =
                (accounts (data w1))(t \<mapsto> b')"
      by (simp add: d u1 a'_def b'_def)
    from total_upd [OF fin a(2) u1]
    have t1: "total w1 = total w - val (balance a) + val (balance a')"
      and f1: "finite (dom (accounts (data w1)))" by simp_all
    from a(1,3) have b1: "accounts (data w1) t = Some b" by (simp add: u1)
    from total_upd [OF f1 b1 u2]
    have t2: "total (snd (transfer w acc to_line line now1 now2)) =
                total w1 - val (balance b) + val (balance b')"
      and f2: "finite (dom (accounts (data (snd (transfer w acc to_line line now1 now2)))))"
      by simp_all
    from t1 t2 r(2) q(2)
    have "total (snd (transfer w acc to_line line now1 now2)) = total w"
      by (simp add: a'_def b'_def)
    moreover have "whole_balances (snd (transfer w acc to_line line now1 now2))"
      using inv r(1) q(1)
      by (auto simp: whole_balances_def u2 u1 a'_def b'_def split: if_splits)
    ultimately show ?thesis using f2 by (simp add: Transfer)
  next
    case False
    with transfer_fail [of w acc to_line line now1 now2]
    have e: "snd (transfer w acc to_line line now1 now2) = w" by blast
    with fin inv show ?thesis by (simp add: Transfer)
  qed
next
  case (History acc)
  with fin inv show ?thesis by (simp add: reads_same)
qed

text \<open>
  With floats, a transfer can change the sum of the balances. In \<open>big_store\<close> the
  transfer of 1 to the account holding 10000000000000000 goes through and takes 1 from
  the other account, while the receiving balance stays as it was: the sum of the balances
  goes from 10000000000000003 to 10000000000000002. Added as floats, the two balances
  give 10000000000000004 before and 10000000000000002 after.
\<close>

theorem transfer_changes_total:
  "fst (transfer big_store ''1002'' ''1001'' ''1'' ''09:04'' ''09:05'')
      = Transferred (Fin 1 0) ''1001''
   \<and> big_store_after = snd (transfer big_store ''1002'' ''1001'' ''1'' ''09:04'' ''09:05'')
   \<and> total big_store = 10000000000000003
   \<and> total big_store_after = 10000000000000002
   \<and> val (fadd (balance_of big_store ''1001'') (balance_of big_store ''1002''))
       = 10000000000000004
   \<and> val (fadd (balance_of big_store_after ''1001'') (balance_of big_store_after ''1002''))
       = 10000000000000002"
proof -
  have a: "fst (transfer big_store ''1002'' ''1001'' ''1'' ''09:04'' ''09:05'')
      = Transferred (Fin 1 0) ''1001''"
    by (simp add: transfer_outcome big_store_accounts str_eval float_eval)
  have b: "big_store_after = snd (transfer big_store ''1002'' ''1001'' ''1'' ''09:04'' ''09:05'')"
    by (simp add: big_store_after_def)
  have c: "total big_store = 10000000000000003"
    by (simp add: total_def big_store_accounts)
  have d: "total big_store_after = 10000000000000002"
    by (simp add: total_def big_store_after_accounts)
  have e: "val (fadd (balance_of big_store ''1001'') (balance_of big_store ''1002''))
       = 10000000000000004"
    by (simp add: balance_of_def big_store_accounts float_eval)
  have f: "val (fadd (balance_of big_store_after ''1001'') (balance_of big_store_after ''1002''))
       = 10000000000000002"
    by (simp add: balance_of_def big_store_after_accounts float_eval)
  from a b c d e f show ?thesis by (simp only: simp_thms)
qed

text \<open>
  C3. Along every sequence of deposits, withdrawals and transfers (and reads) that stays
  in whole amounts, from a state whose balances are whole, the sum of the balances changes
  by exactly the sum of the amounts of the deposits that go through minus the sum of the
  amounts of the withdrawals that go through. A transfer counts for nothing in that net
  amount: a transfer that goes through leaves the sum of all balances as it was.
\<close>

theorem total_changes_by_net:
  assumes "finite (dom (accounts (data w)))"
    and "whole_balances w"
    and "\<forall>x \<in> set xs. \<not> is_create x"
    and "whole_run w xs"
  shows "total (run w xs) = total w + net w xs"
  using assms
proof (induction xs arbitrary: w)
  case Nil
  then show ?case by simp
next
  case (Cons x xs)
  from Cons.prems(3) have nc: "\<not> is_create x" "\<forall>x \<in> set xs. \<not> is_create x" by simp_all
  from Cons.prems(4) have ws: "whole_step w x" "whole_run (snd (step w x)) xs" by simp_all
  from step_total [OF Cons.prems(1,2) nc(1) ws(1)]
  have s: "total (snd (step w x)) = total w + delta w x"
    "finite (dom (accounts (data (snd (step w x)))))"
    "whole_balances (snd (step w x))" by simp_all
  from Cons.IH [OF s(2) s(3) nc(2) ws(2)] s(1) show ?case by simp
qed

theorem total_changes_by_net_witness:
  "finite (dom (accounts (data scenario)))
   \<and> whole (balance_of scenario ''1001'') \<and> whole (balance_of scenario ''1002'')
   \<and> whole_run scenario [Deposit ''1001'' ''25'' ''09:10'',
                   Transfer ''1001'' ''1002'' ''200.00'' ''09:11'' ''09:12'',
                   Withdraw ''1002'' ''100'' ''09:13'']
   \<and> total scenario = 500
   \<and> net scenario [Deposit ''1001'' ''25'' ''09:10'',
                   Transfer ''1001'' ''1002'' ''200.00'' ''09:11'' ''09:12'',
                   Withdraw ''1002'' ''100'' ''09:13''] = - 75
   \<and> total (run scenario [Deposit ''1001'' ''25'' ''09:10'',
                   Transfer ''1001'' ''1002'' ''200.00'' ''09:11'' ''09:12'',
                   Withdraw ''1002'' ''100'' ''09:13'']) = 425"
proof -
  have a: "finite (dom (accounts (data scenario)))" by (simp add: scenario_accounts)
  have b: "whole_balances scenario"
    by (simp add: whole_balances_def scenario_accounts whole_def)
  have c: "\<forall>x \<in> set [Deposit ''1001'' ''25'' ''09:10'',
                   Transfer ''1001'' ''1002'' ''200.00'' ''09:11'' ''09:12'',
                   Withdraw ''1002'' ''100'' ''09:13'']. \<not> is_create x" by simp
  have d: "whole_run scenario [Deposit ''1001'' ''25'' ''09:10'',
                   Transfer ''1001'' ''1002'' ''200.00'' ''09:11'' ''09:12'',
                   Withdraw ''1002'' ''100'' ''09:13'']"
    by (simp add: deposit_def withdraw_def transfer_def add_history_def set_balance_def
        save_data_def scenario_accounts str_eval float_eval whole_def balance_of_def)
  have e: "total scenario = 500" by (simp add: total_def scenario_accounts)
  have f: "net scenario [Deposit ''1001'' ''25'' ''09:10'',
                   Transfer ''1001'' ''1002'' ''200.00'' ''09:11'' ''09:12'',
                   Withdraw ''1002'' ''100'' ''09:13''] = - 75"
    by (simp add: deposit_def withdraw_def transfer_def add_history_def set_balance_def
        save_data_def scenario_accounts str_eval float_eval)
  have g: "whole (balance_of scenario ''1001'')" "whole (balance_of scenario ''1002'')"
    by (simp_all add: balance_of_def scenario_accounts whole_def)
  from total_changes_by_net [OF a b c d] a d e f g show ?thesis
    by (simp only: simp_thms)
qed

section \<open>The rules of withdraw\<close>




section \<open>An amount that is not a number\<close>

text \<open>
  C2. An account is created, with balance 0. The text \<open>nan\<close> typed at the amount prompt
  of \<open>withdraw\<close> passes the checks \<open>amt <= 0\<close> and \<open>balance < amt\<close>, both false for \<open>nan\<close>:
  the withdrawal goes through and the balance becomes \<open>nan\<close>, which is not \<open>>= 0\<close>. From then
  on every withdrawal goes through, here one of 1000000 from an account into which nothing
  was ever paid.
\<close>

theorem nan_withdrawals_go_through:
  "balance_of new_store ''1001'' = Fin 0 0
   \<and> fst (withdraw new_store ''1001'' ''nan'' ''09:01'') = Withdrew NaN
   \<and> nan_store = snd (withdraw new_store ''1001'' ''nan'' ''09:01'')
   \<and> balance_of nan_store ''1001'' = NaN
   \<and> \<not> fge0 (balance_of nan_store ''1001'')
   \<and> fst (withdraw nan_store ''1001'' ''1000000'' ''09:02'') = Withdrew (Fin 15625 6)
   \<and> val (Fin 15625 6) = 1000000
   \<and> balance_of (snd (withdraw nan_store ''1001'' ''1000000'' ''09:02'')) ''1001'' = NaN"
proof -
  have a: "accounts (data new_store) =
     [''1001'' \<mapsto> \<lparr>name = ''Asha Rao'', pin = ''1234'', balance = Fin 0 0,
                   history = [\<lparr>etime = ''09:00Z'', etype = ''create'', eamount = Fin 0 0,
                               enote = ''Account created''\<rparr>]\<rparr>]"
    by (simp add: new_store_def op_eval str_eval float_eval)
  have b: "balance_of new_store ''1001'' = Fin 0 0"
    by (simp add: balance_of_def a)
  have c: "fst (withdraw new_store ''1001'' ''nan'' ''09:01'') = Withdrew NaN"
    by (simp add: withdraw_outcome a str_eval float_eval)
  have d: "nan_store = snd (withdraw new_store ''1001'' ''nan'' ''09:01'')"
    by (simp only: nan_store_def new_store_def run.simps step.simps)
  have e: "balance_of nan_store ''1001'' = NaN"
    by (simp add: balance_of_def nan_store_accounts)
  have f: "fst (withdraw nan_store ''1001'' ''1000000'' ''09:02'') = Withdrew (Fin 15625 6)"
    by (simp add: withdraw_outcome nan_store_accounts str_eval float_eval)
  have g: "balance_of (snd (withdraw nan_store ''1001'' ''1000000'' ''09:02'')) ''1001'' = NaN"
    by (simp add: withdraw_def add_history_def set_balance_def save_data_def balance_of_def
        nan_store_accounts str_eval float_eval)
  have h: "val (Fin 15625 6) = 1000000" by simp
  from b c d e f g h show ?thesis by (simp only: simp_thms fge0.simps)
qed

end
